theory Spec2Isabelle
  imports Complex_Main "HOL-Library.Multiset"
begin

section \<open>The embedding store\<close>

text \<open>
  The scripts work on one table, \<^verbatim>\<open>embedding_cache\<close>. A row carries the key columns
  \<^verbatim>\<open>id\<close> and \<^verbatim>\<open>value_hash\<close>, the text the vector stands for, the stored vector (NULL is
  \<open>None\<close>; the scripts read it in its text form), provenance tags, a usage counter and the
  five nullable coordinate columns. Coordinates are values of an arbitrary type \<open>'c\<close>: the
  scripts only move them around, compare them for NULL and (in the statistics) order them.
  The table also records which coordinate columns its schema has, since two scripts add
  them on demand and every statement that names a missing column is rejected by the server.
\<close>

datatype error =
  ZeroDivisionError | TypeError | ValueError | IndexError | DatabaseError | SystemExit

record 'c row =
  row_id :: int
  value_text :: string
  value_hash :: string
  embedding_small :: "string option"
  embedding_large :: "string option"
  source_table :: string
  source_column :: string
  usage_count :: int
  umap_x_2d :: "'c option"
  umap_y_2d :: "'c option"
  umap_x_3d :: "'c option"
  umap_y_3d :: "'c option"
  umap_z_3d :: "'c option"

record 'c db =
  table_columns :: "string list"
  table_rows :: "'c row list"

definition UMAP_COLUMNS :: "string list" where
  "UMAP_COLUMNS = [''umap_x_2d'', ''umap_y_2d'', ''umap_x_3d'', ''umap_y_3d'', ''umap_z_3d'']"

definition has_columns :: "'c db \<Rightarrow> string list \<Rightarrow> bool" where
  "has_columns conn cs = list_all (\<lambda>c. c \<in> set (table_columns conn)) cs"

text \<open>
  \<^verbatim>\<open>UPDATE embedding_cache SET umap_x_2d = .., .. WHERE id = ..\<close>: every row with that id
  gets the five values; the other rows are untouched.
\<close>

definition set_coordinates :: "'c \<times> 'c \<Rightarrow> 'c \<times> 'c \<times> 'c \<Rightarrow> 'c row \<Rightarrow> 'c row" where
  "set_coordinates p2 p3 r =
     r\<lparr>umap_x_2d := Some (fst p2), umap_y_2d := Some (snd p2),
       umap_x_3d := Some (fst p3), umap_y_3d := Some (fst (snd p3)),
       umap_z_3d := Some (snd (snd p3))\<rparr>"

definition update_one :: "('c \<times> 'c) \<times> ('c \<times> 'c \<times> 'c) \<times> int \<Rightarrow> 'c row \<Rightarrow> 'c row" where
  "update_one u r = (if row_id r = snd (snd u) then set_coordinates (fst u) (fst (snd u)) r else r)"

definition update_where_id :: "'c row list \<Rightarrow> ('c \<times> 'c) \<times> ('c \<times> 'c \<times> 'c) \<times> int \<Rightarrow> 'c row list" where
  "update_where_id rs u = map (update_one u) rs"

section \<open>packages/db/populate-umap-coordinates.py\<close>

definition BATCH_SIZE :: nat where
  "BATCH_SIZE = 100"

text \<open>
  \<^verbatim>\<open>fetch_embeddings\<close>: \<^verbatim>\<open>SELECT id, value, embedding_small FROM embedding_cache
  WHERE umap_x_2d IS NULL ORDER BY id\<close>. The statement names \<^verbatim>\<open>umap_x_2d\<close>, so the server
  rejects it when the column is missing. With no row the function returns two empty lists
  and the empty array \<^verbatim>\<open>np.array([])\<close>. Otherwise the third column goes through
  \<^verbatim>\<open>np.array(.., dtype=np.float32)\<close> before anything is returned. That conversion is the
  numeric library's and is the parameter \<open>float32_array\<close>: it is given the stored vectors of the
  selected rows (NULL as \<open>None\<close>) and returns the array, or \<open>None\<close> when the library
  refuses them and raises ValueError. An array is the list of its entries along the first
  axis; what an entry is (a number, a row of numbers) is left open.
\<close>

definition fetch_embeddings_populate ::
    "(string option list \<Rightarrow> 'v list option) \<Rightarrow> 'c db
      \<Rightarrow> error + (int list \<times> string list \<times> 'v list)" where
  "fetch_embeddings_populate float32_array conn =
     (if \<not> has_columns conn [''umap_x_2d''] then Inl DatabaseError
      else
        let rows = sort_key row_id (filter (\<lambda>r. umap_x_2d r = None) (table_rows conn))
        in if rows = [] then Inr ([], [], [])
           else
             let ids = map row_id rows;
                 labels = map value_text rows
             in case float32_array (map embedding_small rows) of
                  None \<Rightarrow> Inl ValueError
                | Some embeddings \<Rightarrow> Inr (ids, labels, embeddings))"

text \<open>
  \<^verbatim>\<open>compute_umap_projections\<close>: two fits of the external library, one per target
  dimension. The library is a parameter: \<open>fit2\<close> and \<open>fit3\<close> return the coordinate rows,
  or \<open>None\<close> when the library raises.
\<close>

definition compute_umap_projections ::
    "('m \<Rightarrow> ('c \<times> 'c) list option) \<Rightarrow> ('m \<Rightarrow> ('c \<times> 'c \<times> 'c) list option) \<Rightarrow> 'm
      \<Rightarrow> error + (('c \<times> 'c) list \<times> ('c \<times> 'c \<times> 'c) list)" where
  "compute_umap_projections fit2 fit3 embeddings =
     (case fit2 embeddings of
        None \<Rightarrow> Inl ValueError
      | Some coords_2d \<Rightarrow>
          (case fit3 embeddings of
             None \<Rightarrow> Inl ValueError
           | Some coords_3d \<Rightarrow> Inr (coords_2d, coords_3d)))"

text \<open>
  One tuple of \<^verbatim>\<open>batch_data\<close>: row \<open>j\<close> of both coordinate arrays and \<open>ids[j]\<close>. Reading a
  row the array does not have raises IndexError.
\<close>

definition batch_tuple ::
    "int list \<Rightarrow> ('c \<times> 'c) list \<Rightarrow> ('c \<times> 'c \<times> 'c) list \<Rightarrow> nat
      \<Rightarrow> error + (('c \<times> 'c) \<times> ('c \<times> 'c \<times> 'c) \<times> int)" where
  "batch_tuple ids coords_2d coords_3d j =
     (if j < length coords_2d \<and> j < length coords_3d
      then Inr (coords_2d ! j, coords_3d ! j, ids ! j)
      else Inl IndexError)"

fun collect :: "(error + 'a) list \<Rightarrow> error + 'a list" where
  "collect [] = Inr []"
| "collect (Inl e # xs) = Inl e"
| "collect (Inr v # xs) = (case collect xs of Inl e \<Rightarrow> Inl e | Inr vs \<Rightarrow> Inr (v # vs))"

definition batch_data_of ::
    "int list \<Rightarrow> ('c \<times> 'c) list \<Rightarrow> ('c \<times> 'c \<times> 'c) list \<Rightarrow> nat \<Rightarrow> nat
      \<Rightarrow> error + (('c \<times> 'c) \<times> ('c \<times> 'c \<times> 'c) \<times> int) list" where
  "batch_data_of ids coords_2d coords_3d i batch_end =
     collect (map (batch_tuple ids coords_2d coords_3d) [i..<batch_end])"

text \<open>
  The trace of the writer: one entry per batch handed to the server, keyed by the index
  of the batch's first row.
\<close>

datatype event = Committed nat | Failed nat

record 'c written =
  store :: "'c db"
  trace :: "event list"
  outcome :: "error + nat"

text \<open>
  \<^verbatim>\<open>update_umap_coordinates\<close>: the loop \<^verbatim>\<open>for i in range(0, len(ids), BATCH_SIZE)\<close>. Each
  round builds \<^verbatim>\<open>batch_data\<close>, runs \<^verbatim>\<open>executemany\<close> and commits. \<open>write_fails i\<close> says that
  the server rejects the batch that starts at row \<open>i\<close>; a statement on a table without the
  five columns is rejected too. There is no handler in the loop: the exception leaves the
  function, the open transaction is never committed, and the store stays as the last
  commit left it.
\<close>

function update_loop ::
    "(nat \<Rightarrow> bool) \<Rightarrow> int list \<Rightarrow> ('c \<times> 'c) list \<Rightarrow> ('c \<times> 'c \<times> 'c) list
      \<Rightarrow> nat \<Rightarrow> 'c db \<Rightarrow> event list \<Rightarrow> nat \<Rightarrow> 'c written" where
  "update_loop write_fails ids coords_2d coords_3d i conn tr total_updated =
     (if i < length ids then
        (let batch_end = min (i + BATCH_SIZE) (length ids) in
         case batch_data_of ids coords_2d coords_3d i batch_end of
           Inl e \<Rightarrow> \<lparr>store = conn, trace = tr, outcome = Inl e\<rparr>
         | Inr batch_data \<Rightarrow>
             if write_fails i \<or> \<not> has_columns conn UMAP_COLUMNS
             then \<lparr>store = conn, trace = tr @ [Failed i], outcome = Inl DatabaseError\<rparr>
             else update_loop write_fails ids coords_2d coords_3d (i + BATCH_SIZE)
                    (conn\<lparr>table_rows := foldl update_where_id (table_rows conn) batch_data\<rparr>)
                    (tr @ [Committed i]) (total_updated + length batch_data))
      else \<lparr>store = conn, trace = tr, outcome = Inr total_updated\<rparr>)"
  by pat_completeness auto
termination
  by (relation "measure (\<lambda>(w, ids, c2, c3, i, conn, tr, n). length ids - i)")
     (auto simp: BATCH_SIZE_def)

declare update_loop.simps [simp del]

definition update_umap_coordinates_populate ::
    "(nat \<Rightarrow> bool) \<Rightarrow> 'c db \<Rightarrow> int list \<Rightarrow> ('c \<times> 'c) list \<Rightarrow> ('c \<times> 'c \<times> 'c) list \<Rightarrow> 'c written" where
  "update_umap_coordinates_populate write_fails conn ids coords_2d coords_3d =
     update_loop write_fails ids coords_2d coords_3d 0 conn [] 0"

text \<open>
  The aggregates of \<^verbatim>\<open>verify_population\<close>: \<^verbatim>\<open>COUNT(col)\<close> counts the non-NULL values,
  \<^verbatim>\<open>MIN\<close> and \<^verbatim>\<open>MAX\<close> skip NULL and are NULL when nothing is left.
\<close>

definition sql_count :: "'a option list \<Rightarrow> nat" where
  "sql_count xs = length (filter (\<lambda>x. x \<noteq> None) xs)"

fun sql_min :: "('a::linorder) option list \<Rightarrow> 'a option" where
  "sql_min [] = None"
| "sql_min (None # xs) = sql_min xs"
| "sql_min (Some v # xs) = (case sql_min xs of None \<Rightarrow> Some v | Some w \<Rightarrow> Some (min v w))"

fun sql_max :: "('a::linorder) option list \<Rightarrow> 'a option" where
  "sql_max [] = None"
| "sql_max (None # xs) = sql_max xs"
| "sql_max (Some v # xs) = (case sql_max xs of None \<Rightarrow> Some v | Some w \<Rightarrow> Some (max v w))"

text \<open>
  Python's \<^verbatim>\<open>100*a/b\<close> on integers: true division, ZeroDivisionError when \<open>b\<close> is zero. The
  quotient is kept exact.
\<close>

definition percent :: "nat \<Rightarrow> nat \<Rightarrow> error + rat" where
  "percent a b = (if b = 0 then Inl ZeroDivisionError else Inr (of_nat (100 * a) / of_nat b))"

text \<open>\<^verbatim>\<open>f"{x:.2f}"\<close> on a value that may be \<^verbatim>\<open>None\<close>: TypeError on \<^verbatim>\<open>None\<close>.\<close>

definition fmt_range :: "'a option \<Rightarrow> 'a option \<Rightarrow> error + ('a \<times> 'a)" where
  "fmt_range lo hi =
     (case lo of None \<Rightarrow> Inl TypeError
      | Some l \<Rightarrow> (case hi of None \<Rightarrow> Inl TypeError | Some h \<Rightarrow> Inr (l, h)))"

record 'c population =
  total :: nat
  populated_2d :: nat
  populated_3d :: nat
  percent_2d :: rat
  percent_3d :: rat
  ranges :: "('c \<times> 'c) list"

text \<open>
  \<^verbatim>\<open>verify_population\<close>: one aggregate query, then the report, printed line by line. The
  lines are evaluated in order, so the first failing one decides the exception.
\<close>

definition verify_population :: "('c::linorder) db \<Rightarrow> error + 'c population" where
  "verify_population conn =
     (if \<not> has_columns conn UMAP_COLUMNS then Inl DatabaseError
      else
        let rs = table_rows conn;
            stats0 = length rs;
            stats1 = sql_count (map umap_x_2d rs);
            stats2 = sql_count (map umap_x_3d rs)
        in
        case percent stats1 stats0 of Inl e \<Rightarrow> Inl e | Inr p2 \<Rightarrow>
        case percent stats2 stats0 of Inl e \<Rightarrow> Inl e | Inr p3 \<Rightarrow>
        case collect (map (\<lambda>col. fmt_range (sql_min (map col rs)) (sql_max (map col rs)))
                       [umap_x_2d, umap_y_2d, umap_x_3d, umap_y_3d, umap_z_3d]) of
          Inl e \<Rightarrow> Inl e
        | Inr rg \<Rightarrow>
            Inr \<lparr>total = stats0, populated_2d = stats1, populated_3d = stats2,
                 percent_2d = p2, percent_3d = p3, ranges = rg\<rparr>)"

text \<open>
  \<^verbatim>\<open>main\<close>, from an open connection. The result is the exit status of the process, the
  store it leaves behind, the closing message and the writer's trace. An exception of
  any step is caught by one of the two handlers, which print it and exit with status 1.
\<close>

datatype message = AllDone | Success | DatabaseErrorMsg | UnexpectedErrorMsg

definition handler :: "error \<Rightarrow> message" where
  "handler e = (if e = DatabaseError then DatabaseErrorMsg else UnexpectedErrorMsg)"

record 'c run =
  exit_status :: nat
  final :: "'c db"
  said :: message
  calls :: "event list"

definition main_populate ::
    "(string option list \<Rightarrow> 'v list option)
      \<Rightarrow> ('v list \<Rightarrow> ('c \<times> 'c) list option) \<Rightarrow> ('v list \<Rightarrow> ('c \<times> 'c \<times> 'c) list option)
      \<Rightarrow> (nat \<Rightarrow> bool) \<Rightarrow> ('c::linorder) db \<Rightarrow> 'c run" where
  "main_populate float32_array fit2 fit3 write_fails conn =
     (case fetch_embeddings_populate float32_array conn of
        Inl e \<Rightarrow> \<lparr>exit_status = 1, final = conn, said = handler e, calls = []\<rparr>
      | Inr (ids, labels, embeddings) \<Rightarrow>
          if length ids = 0
          then \<lparr>exit_status = 0, final = conn, said = AllDone, calls = []\<rparr>
          else
            (case compute_umap_projections fit2 fit3 embeddings of
               Inl e \<Rightarrow> \<lparr>exit_status = 1, final = conn, said = handler e, calls = []\<rparr>
             | Inr (coords_2d, coords_3d) \<Rightarrow>
                 (let w = update_umap_coordinates_populate write_fails conn ids coords_2d coords_3d in
                  case outcome w of
                    Inl e \<Rightarrow> \<lparr>exit_status = 1, final = store w, said = handler e, calls = trace w\<rparr>
                  | Inr rows_updated \<Rightarrow>
                      (case verify_population (store w) of
                         Inl e \<Rightarrow> \<lparr>exit_status = 1, final = store w, said = handler e, calls = trace w\<rparr>
                       | Inr stats \<Rightarrow>
                           \<lparr>exit_status = 0, final = store w, said = Success, calls = trace w\<rparr>))))"

section \<open>visualization-pipeline/check\_db\_final.py\<close>

text \<open>
  The script up to its NULL check: the row count, the coverage line of each dimension,
  the count of rows that kept their vector, and the count of rows with a NULL coordinate.
  The sample listing that ends the script is left out. An exception ends the script.
\<close>

record final_check =
  fc_total :: nat
  fc_with_2d :: "nat \<times> rat"
  fc_with_3d :: "nat \<times> rat"
  fc_embed_count :: "nat \<times> rat"
  fc_nulls :: nat

definition check_db_final :: "'c db \<Rightarrow> error + final_check" where
  "check_db_final conn =
     (let rs = table_rows conn; total = length rs in
      if \<not> has_columns conn [''umap_x_2d'', ''umap_x_3d''] then Inl DatabaseError
      else
        let row0 = length rs;
            row1 = sql_count (map umap_x_2d rs);
            row2 = sql_count (map umap_x_3d rs)
        in
        case percent row1 row0 of Inl e \<Rightarrow> Inl e | Inr p2 \<Rightarrow>
        case percent row2 row0 of Inl e \<Rightarrow> Inl e | Inr p3 \<Rightarrow>
        let embed_count = sql_count (map embedding_small rs) in
        case percent embed_count total of Inl e \<Rightarrow> Inl e | Inr pe \<Rightarrow>
        if \<not> has_columns conn UMAP_COLUMNS then Inl DatabaseError
        else
          let nulls = length (filter (\<lambda>r. umap_x_2d r = None \<or> umap_y_2d r = None \<or>
                        umap_x_3d r = None \<or> umap_y_3d r = None \<or> umap_z_3d r = None) rs)
          in Inr \<lparr>fc_total = total, fc_with_2d = (row1, p2), fc_with_3d = (row2, p3),
                   fc_embed_count = (embed_count, pe), fc_nulls = nulls\<rparr>)"

section \<open>Schema evolution\<close>

text \<open>
  \<^verbatim>\<open>ALTER TABLE embedding_cache ADD COLUMN col\<close>: the server rejects a column name the
  table already has; a new column is NULL in every row. With \<^verbatim>\<open>IF NOT EXISTS\<close> the
  statement does nothing when the column is there.
\<close>

definition null_column :: "string \<Rightarrow> 'c row \<Rightarrow> 'c row" where
  "null_column col r =
     (if col = ''umap_x_2d'' then r\<lparr>umap_x_2d := None\<rparr>
      else if col = ''umap_y_2d'' then r\<lparr>umap_y_2d := None\<rparr>
      else if col = ''umap_x_3d'' then r\<lparr>umap_x_3d := None\<rparr>
      else if col = ''umap_y_3d'' then r\<lparr>umap_y_3d := None\<rparr>
      else if col = ''umap_z_3d'' then r\<lparr>umap_z_3d := None\<rparr>
      else r)"

definition add_column :: "'c db \<Rightarrow> string \<Rightarrow> error + 'c db" where
  "add_column conn col =
     (if col \<in> set (table_columns conn) then Inl DatabaseError
      else Inr (conn\<lparr>table_columns := table_columns conn @ [col],
                     table_rows := map (null_column col) (table_rows conn)\<rparr>))"

definition add_column_if_not_exists :: "'c db \<Rightarrow> string \<Rightarrow> 'c db" where
  "add_column_if_not_exists conn col =
     (case add_column conn col of Inl e \<Rightarrow> conn | Inr conn' \<Rightarrow> conn')"

text \<open>
  \<^verbatim>\<open>add_umap_columns\<close> of scripts/embeddings/umap-reduce.py: the names among the five
  that the table has are read, the 2D pair is queued when \<^verbatim>\<open>umap_x_2d\<close> is not among
  them and the 3D triple when \<^verbatim>\<open>umap_x_3d\<close> is not, and every queued column is added
  with \<^verbatim>\<open>IF NOT EXISTS\<close>.
\<close>

definition add_umap_columns :: "'c db \<Rightarrow> 'c db" where
  "add_umap_columns conn =
     (let existing_columns = filter (\<lambda>c. c \<in> set UMAP_COLUMNS) (table_columns conn);
          columns_to_add =
            (if ''umap_x_2d'' \<notin> set existing_columns then [''umap_x_2d'', ''umap_y_2d''] else []) @
            (if ''umap_x_3d'' \<notin> set existing_columns then [''umap_x_3d'', ''umap_y_3d'', ''umap_z_3d''] else [])
      in if columns_to_add \<noteq> [] then foldl add_column_if_not_exists conn columns_to_add
         else conn)"

text \<open>
  \<^verbatim>\<open>ensure_umap_columns\<close> of visualization-pipeline/03\_update\_database.py: the column
  names matching \<^verbatim>\<open>LIKE 'umap_%'\<close> are read once (in the pattern \<^verbatim>\<open>_\<close> stands for any one
  character and \<^verbatim>\<open>%\<close> for any rest), then each of the five columns that was not among
  them is added with a plain \<^verbatim>\<open>ADD COLUMN\<close>.
\<close>

definition like_umap :: "string \<Rightarrow> bool" where
  "like_umap c = (take 4 c = ''umap'' \<and> 5 \<le> length c)"

fun ensure_loop :: "string list \<Rightarrow> string list \<Rightarrow> 'c db \<Rightarrow> error + 'c db" where
  "ensure_loop existing [] conn = Inr conn"
| "ensure_loop existing (col_name # rest) conn =
     (if col_name \<notin> set existing
      then (case add_column conn col_name of
              Inl e \<Rightarrow> Inl e
            | Inr conn' \<Rightarrow> ensure_loop existing rest conn')
      else ensure_loop existing rest conn)"

definition ensure_umap_columns :: "'c db \<Rightarrow> error + 'c db" where
  "ensure_umap_columns conn =
     (let existing_column_names = filter like_umap (table_columns conn);
          columns_to_add = [''umap_x_2d'', ''umap_y_2d'', ''umap_x_3d'', ''umap_y_3d'', ''umap_z_3d'']
      in ensure_loop existing_column_names columns_to_add conn)"

section \<open>Python strings and numbers\<close>

text \<open>
  The string methods the scripts call, on ASCII text: \<^verbatim>\<open>s.replace(a, b)\<close> for single
  characters, \<^verbatim>\<open>s.split(sep)\<close> (always at least one piece), \<^verbatim>\<open>s.strip(chars)\<close>,
  \<^verbatim>\<open>s.startswith(c)\<close> and \<^verbatim>\<open>s.endswith(c)\<close>.
\<close>

definition replace_char :: "char \<Rightarrow> char \<Rightarrow> string \<Rightarrow> string" where
  "replace_char a b s = map (\<lambda>c. if c = a then b else c) s"

fun split_on :: "char \<Rightarrow> string \<Rightarrow> string list" where
  "split_on sep [] = [[]]"
| "split_on sep (c # cs) =
     (if c = sep then [] # split_on sep cs
      else (case split_on sep cs of [] \<Rightarrow> [[c]] | t # ts \<Rightarrow> (c # t) # ts))"

definition strip_chars :: "string \<Rightarrow> string \<Rightarrow> string" where
  "strip_chars chars s =
     rev (dropWhile (\<lambda>c. c \<in> set chars) (rev (dropWhile (\<lambda>c. c \<in> set chars) s)))"

definition startswith :: "string \<Rightarrow> char \<Rightarrow> bool" where
  "startswith s c = (case s of [] \<Rightarrow> False | x # _ \<Rightarrow> x = c)"

definition endswith :: "string \<Rightarrow> char \<Rightarrow> bool" where
  "endswith s c = (case rev s of [] \<Rightarrow> False | x # _ \<Rightarrow> x = c)"

text \<open>
  \<^verbatim>\<open>float(s)\<close> on a string: surrounding whitespace is dropped, and what is left must be
  an optional sign followed by \<^verbatim>\<open>inf\<close>, \<^verbatim>\<open>infinity\<close> or \<^verbatim>\<open>nan\<close> in any case, or by a
  decimal number with an optional exponent, where digits may be grouped by single
  underscores. Anything else raises ValueError. A character stands for the code point of
  its number, so the text covered is the one of code points below 256; there the
  whitespace that \<^verbatim>\<open>float\<close> drops is tab, line feed, vertical tab, form feed, carriage
  return, space, next line (0x85) and no-break space (0xA0). The separators 0x1C to 0x1F
  are not dropped. Which floating-point number a literal denotes is left to the
  parameter \<open>num\<close>.
\<close>

definition is_digit :: "char \<Rightarrow> bool" where
  "is_digit c = (c \<in> set ''0123456789'')"

definition whitespace :: "string" where
  "whitespace = [CHR 0x09, CHR 0x0A, CHR 0x0B, CHR 0x0C, CHR 0x0D, CHR 0x20, CHR 0x85, CHR 0xA0]"

fun digitpart :: "string \<Rightarrow> bool" where
  "digitpart [] = False"
| "digitpart [c] = is_digit c"
| "digitpart (c # d # cs) =
     (is_digit c \<and> (if d = CHR ''_'' then digitpart cs else digitpart (d # cs)))"

definition split_first :: "(char \<Rightarrow> bool) \<Rightarrow> string \<Rightarrow> string \<times> string option" where
  "split_first P s =
     (case dropWhile (\<lambda>c. \<not> P c) s of
        [] \<Rightarrow> (s, None)
      | _ # rest \<Rightarrow> (takeWhile (\<lambda>c. \<not> P c) s, Some rest))"

definition drop_sign :: "string \<Rightarrow> string" where
  "drop_sign s = (case s of [] \<Rightarrow> [] | c # cs \<Rightarrow> if c = CHR ''+'' \<or> c = CHR ''-'' then cs else s)"

definition number_literal :: "string \<Rightarrow> bool" where
  "number_literal s =
     (case split_first (\<lambda>c. c = CHR ''.'') s of
        (a, None) \<Rightarrow> digitpart a
      | (a, Some b) \<Rightarrow> (digitpart a \<and> b = []) \<or> ((a = [] \<or> digitpart a) \<and> digitpart b))"

definition floatnumber :: "string \<Rightarrow> bool" where
  "floatnumber s =
     (case split_first (\<lambda>c. c = CHR ''e'' \<or> c = CHR ''E'') s of
        (m, None) \<Rightarrow> number_literal m
      | (m, Some ex) \<Rightarrow> number_literal m \<and> digitpart (drop_sign ex))"

definition lower :: "string \<Rightarrow> string" where
  "lower s = map (\<lambda>c. case map_of (zip ''ABCDEFGHIJKLMNOPQRSTUVWXYZ'' ''abcdefghijklmnopqrstuvwxyz'') c of
                        None \<Rightarrow> c | Some l \<Rightarrow> l) s"

definition float_literal :: "string \<Rightarrow> bool" where
  "float_literal s =
     (let body = drop_sign (strip_chars whitespace s)
      in lower body \<in> set [''inf'', ''infinity'', ''nan''] \<or> floatnumber body)"

definition py_float :: "(string \<Rightarrow> 'c) \<Rightarrow> string \<Rightarrow> error + 'c" where
  "py_float num s = (if float_literal s then Inr (num s) else Inl ValueError)"

text \<open>\<^verbatim>\<open>str(n)\<close> of an integer: its decimal digits, with a minus sign when negative.\<close>

function str_nat :: "nat \<Rightarrow> string" where
  "str_nat n = (if n < 10 then [''0123456789'' ! n] else str_nat (n div 10) @ [''0123456789'' ! (n mod 10)])"
  by pat_completeness auto
termination
  by (relation "measure id") auto

declare str_nat.simps [simp del]

definition str_int :: "int \<Rightarrow> string" where
  "str_int i = (if i < 0 then CHR ''-'' # str_nat (nat (- i)) else str_nat (nat i))"

text \<open>\<^verbatim>\<open>str(v)\<close> of a fetched cell: SQL NULL arrives as \<^verbatim>\<open>None\<close>.\<close>

definition str_cell :: "string option \<Rightarrow> string" where
  "str_cell v = (case v of None \<Rightarrow> ''None'' | Some s \<Rightarrow> s)"

section \<open>scripts/embeddings/umap-reduce.py\<close>

record 'c datum =
  d_value_hash :: string
  d_value :: string
  d_embedding :: "'c list"
  d_source_table :: string
  d_source_column :: string
  d_usage_count :: int

record 'c placed =
  item :: "'c datum"
  d_umap_2d :: "'c \<times> 'c"
  d_umap_3d :: "'c \<times> 'c \<times> 'c"

text \<open>
  The vector of one row: a text in brackets goes to \<^verbatim>\<open>json.loads\<close> (the parameter
  \<open>json_loads\<close>, \<open>None\<close> when it or the array conversion after it raises), any other text
  is split at the commas and every piece goes through \<^verbatim>\<open>float\<close>. Nothing catches the
  ValueError of a piece that is no number.
\<close>

definition parse_vector ::
    "(string \<Rightarrow> 'c list option) \<Rightarrow> (string \<Rightarrow> 'c) \<Rightarrow> string \<Rightarrow> error + 'c list" where
  "parse_vector json_loads num embedding_str =
     (if startswith embedding_str CHR ''['' \<and> endswith embedding_str CHR '']''
      then (case json_loads embedding_str of None \<Rightarrow> Inl ValueError | Some embedding \<Rightarrow> Inr embedding)
      else collect (map (py_float num) (split_on CHR '','' embedding_str)))"

definition datum_of ::
    "(string \<Rightarrow> 'c list option) \<Rightarrow> (string \<Rightarrow> 'c) \<Rightarrow> 'c row \<Rightarrow> error + 'c datum" where
  "datum_of json_loads num r =
     (case parse_vector json_loads num (str_cell (embedding_small r)) of
        Inl e \<Rightarrow> Inl e
      | Inr embedding \<Rightarrow>
          Inr \<lparr>d_value_hash = value_hash r, d_value = value_text r, d_embedding = embedding,
               d_source_table = source_table r, d_source_column = source_column r,
               d_usage_count = usage_count r\<rparr>)"

text \<open>
  \<^verbatim>\<open>fetch_embeddings\<close>: the rows with a vector, in the order of \<^verbatim>\<open>value_hash\<close> (the
  parameter \<open>collate\<close> maps a hash to its place in the server's collation). No row at all
  is \<^verbatim>\<open>sys.exit(1)\<close>.
\<close>

definition fetch_embeddings_reduce ::
    "(string \<Rightarrow> 'k::linorder) \<Rightarrow> (string \<Rightarrow> 'c list option) \<Rightarrow> (string \<Rightarrow> 'c) \<Rightarrow> 'c db
      \<Rightarrow> error + 'c datum list" where
  "fetch_embeddings_reduce collate json_loads num conn =
     (let rows = sort_key (\<lambda>r. collate (value_hash r))
                   (filter (\<lambda>r. embedding_small r \<noteq> None) (table_rows conn))
      in if rows = [] then Inl SystemExit
         else collect (map (datum_of json_loads num) rows))"

text \<open>\<^verbatim>\<open>np.vstack\<close> of one-dimensional arrays: at least one row, all of one length.\<close>

definition vstack :: "'c list list \<Rightarrow> error + 'c list list" where
  "vstack vs =
     (case vs of
        [] \<Rightarrow> Inl ValueError
      | v # _ \<Rightarrow> if list_all (\<lambda>w. length w = length v) vs then Inr vs else Inl ValueError)"

text \<open>
  \<^verbatim>\<open>run_umap\<close>: the vectors are stacked in the order of \<open>data\<close>, projected twice (the
  library is the parameters \<open>fit2\<close> and \<open>fit3\<close>, \<open>None\<close> when it raises), and row \<open>i\<close> of
  each result is stored with \<open>data[i]\<close>.
\<close>

definition place ::
    "('c \<times> 'c) list \<Rightarrow> ('c \<times> 'c \<times> 'c) list \<Rightarrow> nat \<times> 'c datum \<Rightarrow> error + 'c placed" where
  "place coords_2d coords_3d p =
     (if fst p < length coords_2d \<and> fst p < length coords_3d
      then Inr \<lparr>item = snd p, d_umap_2d = coords_2d ! fst p, d_umap_3d = coords_3d ! fst p\<rparr>
      else Inl IndexError)"

definition run_umap ::
    "('c list list \<Rightarrow> ('c \<times> 'c) list option) \<Rightarrow> ('c list list \<Rightarrow> ('c \<times> 'c \<times> 'c) list option)
      \<Rightarrow> 'c datum list \<Rightarrow> error + 'c placed list" where
  "run_umap fit2 fit3 data =
     (case vstack (map d_embedding data) of
        Inl e \<Rightarrow> Inl e
      | Inr embeddings \<Rightarrow>
          (case fit2 embeddings of
             None \<Rightarrow> Inl ValueError
           | Some coords_2d \<Rightarrow>
               (case fit3 embeddings of
                  None \<Rightarrow> Inl ValueError
                | Some coords_3d \<Rightarrow>
                    collect (map (place coords_2d coords_3d) (enumerate 0 data)))))"

text \<open>
  \<^verbatim>\<open>update_database\<close>: one \<^verbatim>\<open>UPDATE .. WHERE value_hash = ..\<close> per entry, all in one
  transaction that is committed after the loop. \<open>write_fails i\<close> says that the server
  rejects statement \<open>i\<close> (\<open>i = len(data)\<close> stands for the commit); then nothing is
  committed.
\<close>

definition update_hash_one :: "'c placed \<Rightarrow> 'c row \<Rightarrow> 'c row" where
  "update_hash_one d r =
     (if value_hash r = d_value_hash (item d) then set_coordinates (d_umap_2d d) (d_umap_3d d) r else r)"

definition update_where_hash :: "'c row list \<Rightarrow> 'c placed \<Rightarrow> 'c row list" where
  "update_where_hash rs d = map (update_hash_one d) rs"

definition update_database :: "(nat \<Rightarrow> bool) \<Rightarrow> 'c db \<Rightarrow> 'c placed list \<Rightarrow> error + 'c db" where
  "update_database write_fails conn data =
     (if data \<noteq> [] \<and> \<not> has_columns conn UMAP_COLUMNS then Inl DatabaseError
      else if list_ex write_fails [0..<Suc (length data)] then Inl DatabaseError
      else Inr (conn\<lparr>table_rows := foldl update_where_hash (table_rows conn) data\<rparr>))"

definition verify_update :: "'c db \<Rightarrow> error + nat" where
  "verify_update conn =
     (if \<not> has_columns conn [''umap_x_2d''] then Inl DatabaseError
      else Inr (length (filter (\<lambda>r. umap_x_2d r \<noteq> None) (table_rows conn))))"

text \<open>
  \<^verbatim>\<open>export_tsv\<close>: the three files, written from \<open>data\<close>. \<open>fmt6\<close> is the format
  \<^verbatim>\<open>:.6f\<close> of a coordinate. Of the metadata fields only \<^verbatim>\<open>value\<close> goes through the
  three replacements.
\<close>

definition TAB :: char where "TAB = CHR 0x09"
definition NL :: char where "NL = CHR 0x0A"
definition CR :: char where "CR = CHR 0x0D"

definition line_2d :: "('c \<Rightarrow> string) \<Rightarrow> 'c placed \<Rightarrow> string" where
  "line_2d fmt6 d = fmt6 (fst (d_umap_2d d)) @ [TAB] @ fmt6 (snd (d_umap_2d d)) @ [NL]"

definition line_3d :: "('c \<Rightarrow> string) \<Rightarrow> 'c placed \<Rightarrow> string" where
  "line_3d fmt6 d =
     fmt6 (fst (d_umap_3d d)) @ [TAB] @ fmt6 (fst (snd (d_umap_3d d))) @ [TAB]
       @ fmt6 (snd (snd (d_umap_3d d))) @ [NL]"

definition sanitize :: "string \<Rightarrow> string" where
  "sanitize v = replace_char CR CHR '' '' (replace_char NL CHR '' '' (replace_char TAB CHR '' '' v))"

definition metadata_line :: "'c placed \<Rightarrow> string" where
  "metadata_line d =
     sanitize (d_value (item d)) @ [TAB] @ d_source_table (item d) @ [TAB]
       @ d_source_column (item d) @ [TAB] @ str_int (d_usage_count (item d)) @ [NL]"

definition metadata_header :: string where
  "metadata_header = ''value'' @ [TAB] @ ''source_table'' @ [TAB] @ ''source_column'' @ [TAB]
                       @ ''usage_count'' @ [NL]"

record tsv_files =
  embeddings_2d_tsv :: string
  embeddings_3d_tsv :: string
  metadata_tsv :: string

definition export_tsv :: "('c \<Rightarrow> string) \<Rightarrow> 'c placed list \<Rightarrow> tsv_files" where
  "export_tsv fmt6 data =
     \<lparr>embeddings_2d_tsv = concat (map (line_2d fmt6) data),
      embeddings_3d_tsv = concat (map (line_3d fmt6) data),
      metadata_tsv = metadata_header @ concat (map metadata_line data)\<rparr>"

text \<open>
  \<^verbatim>\<open>main\<close>, from an open connection: the columns are ensured (and committed) first;
  then fetch, project, write, count and export. \<^verbatim>\<open>sys.exit(1)\<close> of the fetch and every
  exception end the process with status 1; the files are written only by a run that
  gets to the export.
\<close>

record 'c reduce_run =
  r_exit_status :: nat
  r_final :: "'c db"
  r_files :: "tsv_files option"

definition main_reduce ::
    "(string \<Rightarrow> 'k::linorder) \<Rightarrow> (string \<Rightarrow> 'c list option) \<Rightarrow> (string \<Rightarrow> 'c)
      \<Rightarrow> ('c list list \<Rightarrow> ('c \<times> 'c) list option) \<Rightarrow> ('c list list \<Rightarrow> ('c \<times> 'c \<times> 'c) list option)
      \<Rightarrow> (nat \<Rightarrow> bool) \<Rightarrow> ('c \<Rightarrow> string) \<Rightarrow> 'c db \<Rightarrow> 'c reduce_run" where
  "main_reduce collate json_loads num fit2 fit3 write_fails fmt6 conn0 =
     (let conn = add_umap_columns conn0 in
      case fetch_embeddings_reduce collate json_loads num conn of
        Inl e \<Rightarrow> \<lparr>r_exit_status = 1, r_final = conn, r_files = None\<rparr>
      | Inr fetched \<Rightarrow>
          (case run_umap fit2 fit3 fetched of
             Inl e \<Rightarrow> \<lparr>r_exit_status = 1, r_final = conn, r_files = None\<rparr>
           | Inr data \<Rightarrow>
               (case update_database write_fails conn data of
                  Inl e \<Rightarrow> \<lparr>r_exit_status = 1, r_final = conn, r_files = None\<rparr>
                | Inr conn' \<Rightarrow>
                    (case verify_update conn' of
                       Inl e \<Rightarrow> \<lparr>r_exit_status = 1, r_final = conn', r_files = None\<rparr>
                     | Inr cnt \<Rightarrow>
                         \<lparr>r_exit_status = 0, r_final = conn',
                          r_files = Some (export_tsv fmt6 data)\<rparr>))))"

section \<open>visualization-pipeline/01\_extract\_embeddings.py\<close>

text \<open>
  The metadata kept with each vector (the \<^verbatim>\<open>created_at\<close> stamp is left out: nothing here
  reads it).
\<close>

record metadata_row =
  m_id :: int
  m_label :: string
  m_value_hash :: string
  m_source_table :: string
  m_source_column :: string
  m_usage_count :: int

definition metadata_of :: "'c row \<Rightarrow> metadata_row" where
  "metadata_of r =
     \<lparr>m_id = row_id r, m_label = value_text r, m_value_hash = value_hash r,
      m_source_table = source_table r, m_source_column = source_column r,
      m_usage_count = usage_count r\<rparr>"

text \<open>
  The vector of one row, from the text form \<^verbatim>\<open>[0.123,-0.456,...]\<close>: brackets are
  stripped at both ends, the rest is split at the commas and every piece goes through
  \<^verbatim>\<open>float\<close>.
\<close>

definition parse_pgvector :: "(string \<Rightarrow> 'c) \<Rightarrow> string \<Rightarrow> error + 'c list" where
  "parse_pgvector num vector_str =
     (let vector_str_clean = strip_chars ''[]'' vector_str
      in collect (map (py_float num) (split_on CHR '','' vector_str_clean)))"

text \<open>
  \<^verbatim>\<open>np.array(rows, dtype=np.float32)\<close> of a list of one-dimensional arrays: rows of
  different lengths raise ValueError.
\<close>

definition np_array :: "'c list list \<Rightarrow> error + 'c list list" where
  "np_array vs =
     (case vs of
        [] \<Rightarrow> Inr []
      | v # _ \<Rightarrow> if list_all (\<lambda>w. length w = length v) vs then Inr vs else Inl ValueError)"

text \<open>
  \<^verbatim>\<open>extract_embeddings\<close>: the rows whose vector column (chosen by \<open>dimension\<close>) is not
  NULL, by ascending id. The loop parses the vector of every row; no handler is around
  it.
\<close>

definition extract_embeddings ::
    "(string \<Rightarrow> 'c) \<Rightarrow> 'c db \<Rightarrow> nat \<Rightarrow> error + ('c list list \<times> metadata_row list)" where
  "extract_embeddings num conn dimension =
     (let embedding_col = (if dimension = 1536 then embedding_small else embedding_large);
          rows = sort_key row_id (filter (\<lambda>r. embedding_col r \<noteq> None) (table_rows conn))
      in if rows = [] then Inr ([], [])
         else
           (case collect (map (\<lambda>r. parse_pgvector num (str_cell (embedding_col r))) rows) of
              Inl e \<Rightarrow> Inl e
            | Inr embeddings \<Rightarrow>
                (case np_array embeddings of
                   Inl e \<Rightarrow> Inl e
                 | Inr embeddings_array \<Rightarrow> Inr (embeddings_array, map metadata_of rows))))"

text \<open>
  \<^verbatim>\<open>main\<close>: an empty result is \<^verbatim>\<open>sys.exit(1)\<close>, an exception is printed and ends in
  \<^verbatim>\<open>sys.exit(1)\<close> too; otherwise the two files are saved.
\<close>

record 'c extract_run =
  e_exit_status :: nat
  e_saved :: "('c list list \<times> metadata_row list) option"

definition main_extract :: "(string \<Rightarrow> 'c) \<Rightarrow> 'c db \<Rightarrow> 'c extract_run" where
  "main_extract num conn =
     (case extract_embeddings num conn 1536 of
        Inl e \<Rightarrow> \<lparr>e_exit_status = 1, e_saved = None\<rparr>
      | Inr (embeddings, metadata) \<Rightarrow>
          if length embeddings = 0 then \<lparr>e_exit_status = 1, e_saved = None\<rparr>
          else \<lparr>e_exit_status = 0, e_saved = Some (embeddings, metadata)\<rparr>)"

section \<open>visualization-pipeline/03\_update\_database.py\<close>

text \<open>
  \<^verbatim>\<open>update_umap_coordinates\<close>: one \<^verbatim>\<open>UPDATE .. WHERE id = ..\<close> per row of the metadata,
  each in a \<^verbatim>\<open>try\<close> of its own and each committed by itself. A row whose coordinates
  cannot be read or whose statement the server rejects (\<open>write_fails idx\<close>, or a missing
  column) is reported and counted in \<open>failed\<close>, and the loop goes on.
\<close>

record 'c tally =
  t_store :: "'c db"
  t_trace :: "event list"
  updated :: nat
  failed :: nat

definition update_row ::
    "(nat \<Rightarrow> bool) \<Rightarrow> metadata_row list \<Rightarrow> ('c \<times> 'c) list \<Rightarrow> ('c \<times> 'c \<times> 'c) list
      \<Rightarrow> 'c tally \<Rightarrow> nat \<Rightarrow> 'c tally" where
  "update_row write_fails metadata umap_2d umap_3d st idx =
     (let embedding_id = m_id (metadata ! idx) in
      if \<not> (idx < length umap_2d \<and> idx < length umap_3d)
      then st\<lparr>failed := failed st + 1\<rparr>
      else if write_fails idx \<or> \<not> has_columns (t_store st) UMAP_COLUMNS
      then st\<lparr>t_trace := t_trace st @ [Failed idx], failed := failed st + 1\<rparr>
      else st\<lparr>t_store := (t_store st)\<lparr>table_rows :=
                   update_where_id (table_rows (t_store st)) (umap_2d ! idx, umap_3d ! idx, embedding_id)\<rparr>,
              t_trace := t_trace st @ [Committed idx],
              updated := updated st + 1\<rparr>)"

definition update_umap_coordinates_03 ::
    "(nat \<Rightarrow> bool) \<Rightarrow> 'c db \<Rightarrow> metadata_row list \<Rightarrow> ('c \<times> 'c) list \<Rightarrow> ('c \<times> 'c \<times> 'c) list
      \<Rightarrow> 'c tally" where
  "update_umap_coordinates_03 write_fails conn metadata umap_2d umap_3d =
     (let total = length metadata
      in foldl (update_row write_fails metadata umap_2d umap_3d)
           \<lparr>t_store = conn, t_trace = [], updated = 0, failed = 0\<rparr> [0..<total])"

section \<open>Notions used in the statements\<close>

text \<open>
  The parameter tuples of the rows \<open>a\<close> up to \<open>b\<close>: row \<open>j\<close> of both coordinate arrays
  with the id at position \<open>j\<close>.
\<close>

definition tuples ::
    "int list \<Rightarrow> ('c \<times> 'c) list \<Rightarrow> ('c \<times> 'c \<times> 'c) list \<Rightarrow> nat \<Rightarrow> nat
      \<Rightarrow> (('c \<times> 'c) \<times> ('c \<times> 'c \<times> 'c) \<times> int) list" where
  "tuples ids coords_2d coords_3d a b = map (\<lambda>j. (coords_2d ! j, coords_3d ! j, ids ! j)) [a..<b]"

text \<open>The five coordinate cells of a row, and the cells one \<^verbatim>\<open>UPDATE\<close> stores.\<close>

definition coordinates ::
    "'c row \<Rightarrow> 'c option \<times> 'c option \<times> 'c option \<times> 'c option \<times> 'c option" where
  "coordinates r = (umap_x_2d r, umap_y_2d r, umap_x_3d r, umap_y_3d r, umap_z_3d r)"

definition stored ::
    "'c \<times> 'c \<Rightarrow> 'c \<times> 'c \<times> 'c \<Rightarrow> 'c option \<times> 'c option \<times> 'c option \<times> 'c option \<times> 'c option" where
  "stored p2 p3 = (Some (fst p2), Some (snd p2), Some (fst p3), Some (fst (snd p3)), Some (snd (snd p3)))"

text \<open>A record has its 2D pair, or its 3D triple, when none of the cells is NULL.\<close>

definition has_2d :: "'c row \<Rightarrow> bool" where
  "has_2d r = (umap_x_2d r \<noteq> None \<and> umap_y_2d r \<noteq> None)"

definition has_3d :: "'c row \<Rightarrow> bool" where
  "has_3d r = (umap_x_3d r \<noteq> None \<and> umap_y_3d r \<noteq> None \<and> umap_z_3d r \<noteq> None)"

text \<open>Two rows that agree on every column but the five coordinates.\<close>

definition same_base :: "'c row \<Rightarrow> 'c row \<Rightarrow> bool" where
  "same_base r r' =
     (row_id r' = row_id r \<and> value_text r' = value_text r \<and> value_hash r' = value_hash r
      \<and> embedding_small r' = embedding_small r \<and> embedding_large r' = embedding_large r
      \<and> source_table r' = source_table r \<and> source_column r' = source_column r
      \<and> usage_count r' = usage_count r)"

text \<open>A row with its five coordinate cells emptied.\<close>

definition strip_coordinates :: "'c row \<Rightarrow> 'c row" where
  "strip_coordinates r =
     r\<lparr>umap_x_2d := None, umap_y_2d := None, umap_x_3d := None, umap_y_3d := None,
       umap_z_3d := None\<rparr>"

section \<open>Example stores\<close>

text \<open>Small stores, projections and entries on which the statements below are evaluated.\<close>

definition example_row :: "int \<Rightarrow> string option \<Rightarrow> int option \<Rightarrow> int option \<Rightarrow> int row" where
  "example_row i v c2 c3 =
     \<lparr>row_id = i, value_text = ''label'', value_hash = ''h'', embedding_small = v,
      embedding_large = None,
      source_table = ''t'', source_column = ''c'', usage_count = 1,
      umap_x_2d = c2, umap_y_2d = c2, umap_x_3d = c3, umap_y_3d = c3, umap_z_3d = c3\<rparr>"

definition example_db :: "int row list \<Rightarrow> int db" where
  "example_db rs = \<lparr>table_columns = UMAP_COLUMNS, table_rows = rs\<rparr>"

definition example_placed :: "string \<Rightarrow> string \<Rightarrow> string \<Rightarrow> int placed" where
  "example_placed v t c =
     \<lparr>item = \<lparr>d_value_hash = ''h'', d_value = v, d_embedding = [], d_source_table = t,
               d_source_column = c, d_usage_count = 3\<rparr>,
      d_umap_2d = (0, 0), d_umap_3d = (0, 0, 0)\<rparr>"

definition example_truncated_db :: "int db" where
  "example_truncated_db =
     example_db [example_row 1 (Some ''[0.1,0.2]'') None None, example_row 2 (Some ''[0.1,'') None None]"

definition example_good_db :: "int db" where
  "example_good_db =
     example_db [example_row 2 (Some ''[0.1,0.2]'') None None, example_row 1 (Some ''[0.1,0.2]'') None None]"

definition example_pending_db :: "nat \<Rightarrow> int db" where
  "example_pending_db n = example_db (map (\<lambda>i. example_row (int i) (Some ''[0.1,0.2]'') None None) [0..<n])"

definition example_fit2 :: "'m list \<Rightarrow> (int \<times> int) list option" where
  "example_fit2 m = Some (map (\<lambda>v. (0, 0)) m)"

definition example_fit3 :: "'m list \<Rightarrow> (int \<times> int \<times> int) list option" where
  "example_fit3 m = Some (map (\<lambda>v. (0, 0, 0)) m)"

definition example_two_db :: "int db" where
  "example_two_db = example_db [example_row 5 None None None, example_row 3 None None None]"

definition example_datum :: "string \<Rightarrow> int list \<Rightarrow> int datum" where
  "example_datum h v =
     \<lparr>d_value_hash = h, d_value = ''label'', d_embedding = v, d_source_table = ''t'',
      d_source_column = ''c'', d_usage_count = 1\<rparr>"

definition example_one_db :: "int db" where
  "example_one_db = example_db [example_row 1 (Some ''0.1,0.2'') None None]"

section \<open>Properties\<close>

lemma fetch_embeddings_populate_none:
  assumes "has_columns conn [''umap_x_2d'']"
    and "filter (\<lambda>r. umap_x_2d r = None) (table_rows conn) = []"
  shows "fetch_embeddings_populate float32_array conn = Inr ([], [], [])"
  using assms by (simp add: fetch_embeddings_populate_def)

lemma fetch_embeddings_populate_ids:
  assumes "has_columns conn [''umap_x_2d'']"
    and "filter (\<lambda>r. umap_x_2d r = None) (table_rows conn) \<noteq> []"
    and "float32_array (map embedding_small
           (sort_key row_id (filter (\<lambda>r. umap_x_2d r = None) (table_rows conn)))) = Some embeddings"
  shows "fetch_embeddings_populate float32_array conn =
     Inr (map row_id (sort_key row_id (filter (\<lambda>r. umap_x_2d r = None) (table_rows conn))),
          map value_text (sort_key row_id (filter (\<lambda>r. umap_x_2d r = None) (table_rows conn))),
          embeddings)"
proof -
  have "sort_key row_id (filter (\<lambda>r. umap_x_2d r = None) (table_rows conn)) \<noteq> []"
    using assms(2) by (metis length_sort list.size(3) length_0_conv)
  with assms(1,3) show ?thesis
    by (simp add: fetch_embeddings_populate_def Let_def)
qed

lemma fetch_embeddings_populate_raises:
  assumes "has_columns conn [''umap_x_2d'']"
    and "filter (\<lambda>r. umap_x_2d r = None) (table_rows conn) \<noteq> []"
    and "float32_array (map embedding_small
           (sort_key row_id (filter (\<lambda>r. umap_x_2d r = None) (table_rows conn)))) = None"
  shows "fetch_embeddings_populate float32_array conn = Inl ValueError"
proof -
  have "sort_key row_id (filter (\<lambda>r. umap_x_2d r = None) (table_rows conn)) \<noteq> []"
    using assms(2) by (metis length_sort list.size(3) length_0_conv)
  with assms(1,3) show ?thesis
    by (simp add: fetch_embeddings_populate_def Let_def)
qed

lemma has_columns_sub:
  "has_columns conn UMAP_COLUMNS \<Longrightarrow> has_columns conn [''umap_x_2d'']"
  "has_columns conn UMAP_COLUMNS \<Longrightarrow> has_columns conn [''umap_x_2d'', ''umap_x_3d'']"
  by (simp_all add: has_columns_def UMAP_COLUMNS_def)

lemma has_columns_example [simp]: "has_columns (example_db rs) cs = list_all (\<lambda>c. c \<in> set UMAP_COLUMNS) cs"
  by (simp add: has_columns_def example_db_def)

lemma collect_Inl: "collect xs = Inl e \<Longrightarrow> Inl e \<in> set xs"
  by (induction xs rule: collect.induct) (auto split: sum.splits)

lemma fmt_range_error: "fmt_range lo hi = Inl e \<Longrightarrow> e = TypeError"
  by (auto simp: fmt_range_def split: option.splits)

subsection \<open>The pending-row query\<close>

text \<open>
  C2, as the claim states it, fails: the query selects on \<^verbatim>\<open>umap_x_2d IS NULL\<close> alone, so a
  record whose 2D coordinates are present and whose 3D coordinates are absent is not
  returned. Here the only row of the store is in that state and the result is empty.
\<close>

theorem C2_partial_row_not_fetched:
  "umap_x_2d (example_row 7 (Some ''[1,2]'') (Some 5) None) \<noteq> None
   \<and> umap_x_3d (example_row 7 (Some ''[1,2]'') (Some 5) None) = None
   \<and> fetch_embeddings_populate Some (example_db [example_row 7 (Some ''[1,2]'') (Some 5) None])
       = Inr ([], [], [])"
  by (simp add: fetch_embeddings_populate_def example_row_def example_db_def
      has_columns_def UMAP_COLUMNS_def)

text \<open>
  C2, amended: on a table that has the column, \<^verbatim>\<open>fetch_embeddings\<close> selects exactly the
  rows whose \<^verbatim>\<open>umap_x_2d\<close> is NULL (each as often as the table holds it), in ascending
  order of id; the 3D columns play no part. With no such row it returns the empty
  result. Otherwise it hands the vectors of the selected rows, in that order, to the array
  conversion: when the conversion accepts them, the call returns the ids and labels of the
  selected rows with the array; when it refuses them, the call raises ValueError and
  returns nothing.
\<close>

theorem C2_fetch_selects_null_x_2d:
  assumes "has_columns conn [''umap_x_2d'']"
  shows "\<exists>rows. sorted (map row_id rows)
          \<and> mset rows = mset (filter (\<lambda>r. umap_x_2d r = None) (table_rows conn))
          \<and> fetch_embeddings_populate float32_array conn
              = (if rows = [] then Inr ([], [], [])
                 else case float32_array (map embedding_small rows) of
                        None \<Rightarrow> Inl ValueError
                      | Some embeddings \<Rightarrow> Inr (map row_id rows, map value_text rows, embeddings))"
proof -
  let ?rows = "sort_key row_id (filter (\<lambda>r. umap_x_2d r = None) (table_rows conn))"
  have "fetch_embeddings_populate float32_array conn
          = (if ?rows = [] then Inr ([], [], [])
             else case float32_array (map embedding_small ?rows) of
                    None \<Rightarrow> Inl ValueError
                  | Some embeddings \<Rightarrow> Inr (map row_id ?rows, map value_text ?rows, embeddings))"
    using assms by (simp add: fetch_embeddings_populate_def Let_def)
  moreover have "sorted (map row_id ?rows)" by simp
  moreover have "mset ?rows = mset (filter (\<lambda>r. umap_x_2d r = None) (table_rows conn))" by simp
  ultimately show ?thesis by blast
qed

theorem C2_fetch_selects_null_x_2d_witness:
  "has_columns (example_db [example_row 9 None None (Some 4), example_row 7 None (Some 5) None,
       example_row 3 (Some ''[1,2]'') None None]) [''umap_x_2d'']
   \<and> (\<exists>rows. sorted (map row_id rows)
        \<and> mset rows = mset (filter (\<lambda>r. umap_x_2d r = None)
            (table_rows (example_db [example_row 9 None None (Some 4),
               example_row 7 None (Some 5) None, example_row 3 (Some ''[1,2]'') None None])))
        \<and> fetch_embeddings_populate Some (example_db [example_row 9 None None (Some 4),
               example_row 7 None (Some 5) None, example_row 3 (Some ''[1,2]'') None None])
            = (if rows = [] then Inr ([], [], [])
               else case Some (map embedding_small rows) of
                      None \<Rightarrow> Inl ValueError
                    | Some embeddings \<Rightarrow> Inr (map row_id rows, map value_text rows, embeddings)))
   \<and> fetch_embeddings_populate Some (example_db [example_row 9 None None (Some 4),
          example_row 7 None (Some 5) None, example_row 3 (Some ''[1,2]'') None None])
        = Inr ([3, 9], [''label'', ''label''], [Some ''[1,2]'', None])
   \<and> fetch_embeddings_populate (\<lambda>cells. if None \<in> set cells then None else Some cells)
          (example_db [example_row 9 None None (Some 4),
             example_row 7 None (Some 5) None, example_row 3 (Some ''[1,2]'') None None])
        = (Inl ValueError :: error + int list \<times> string list \<times> string option list)"
proof -
  let ?db = "example_db [example_row 9 None None (Some 4), example_row 7 None (Some 5) None,
       example_row 3 (Some ''[1,2]'') None None]"
  have h: "has_columns ?db [''umap_x_2d'']"
    by (simp add: UMAP_COLUMNS_def)
  note t = C2_fetch_selects_null_x_2d [OF h, where float32_array = Some]
  have a: "fetch_embeddings_populate Some ?db
        = Inr ([3, 9], [''label'', ''label''], [Some ''[1,2]'', None])"
    by (simp add: fetch_embeddings_populate_def example_row_def example_db_def
        has_columns_def UMAP_COLUMNS_def)
  have b: "fetch_embeddings_populate (\<lambda>cells. if None \<in> set cells then None else Some cells) ?db
        = (Inl ValueError :: error + int list \<times> string list \<times> string option list)"
    by (simp add: fetch_embeddings_populate_def example_row_def example_db_def
        has_columns_def UMAP_COLUMNS_def)
  from h t a b show ?thesis by blast
qed

subsection \<open>The statistics on an empty table\<close>

lemma verify_population_nonempty:
  assumes "table_rows conn \<noteq> []"
  shows "verify_population conn \<noteq> Inl ZeroDivisionError"
proof
  assume a: "verify_population conn = Inl ZeroDivisionError"
  let ?rs = "table_rows conn"
  let ?cols = "map (\<lambda>col. fmt_range (sql_min (map col ?rs)) (sql_max (map col ?rs)))
                 [umap_x_2d, umap_y_2d, umap_x_3d, umap_y_3d, umap_z_3d]"
  from a assms have "collect ?cols = Inl ZeroDivisionError"
    by (auto simp: verify_population_def percent_def Let_def split: if_splits sum.splits)
  then have "Inl ZeroDivisionError \<in> set ?cols" by (rule collect_Inl)
  then show False by (auto dest: fmt_range_error [OF sym])
qed

lemma check_db_final_nonempty:
  "table_rows conn \<noteq> [] \<Longrightarrow> check_db_final conn \<noteq> Inl ZeroDivisionError"
  by (auto simp: check_db_final_def percent_def Let_def split: if_splits sum.splits)

text \<open>
  C10: on a table that has the coordinate columns, \<^verbatim>\<open>verify_population\<close> and the coverage
  lines of \<^verbatim>\<open>check_db_final.py\<close> raise ZeroDivisionError exactly when the table has no
  rows: the percentages divide by the total row count.
\<close>

theorem C10_statistics_divide_by_total:
  assumes "has_columns conn UMAP_COLUMNS"
  shows "(verify_population conn = Inl ZeroDivisionError \<longleftrightarrow> table_rows conn = [])
       \<and> (check_db_final conn = Inl ZeroDivisionError \<longleftrightarrow> table_rows conn = [])"
proof -
  have "verify_population conn = Inl ZeroDivisionError" if "table_rows conn = []"
    using that assms by (simp add: verify_population_def percent_def sql_count_def)
  moreover have "check_db_final conn = Inl ZeroDivisionError" if "table_rows conn = []"
    using that has_columns_sub(2) [OF assms]
    by (simp add: check_db_final_def percent_def sql_count_def)
  ultimately show ?thesis
    using verify_population_nonempty check_db_final_nonempty by blast
qed

theorem C10_statistics_divide_by_total_witness:
  "has_columns (example_db []) UMAP_COLUMNS
   \<and> verify_population (example_db []) = Inl ZeroDivisionError
   \<and> check_db_final (example_db []) = Inl ZeroDivisionError"
proof -
  have h: "has_columns (example_db []) UMAP_COLUMNS" by (simp add: UMAP_COLUMNS_def)
  have e: "table_rows (example_db []) = []" by (simp add: example_db_def)
  show ?thesis using h e C10_statistics_divide_by_total [OF h] by simp
qed

subsection \<open>Ensuring the coordinate columns\<close>

lemma add_column_columns:
  "add_column conn col = Inr conn' \<Longrightarrow> table_columns conn' = table_columns conn @ [col]"
  by (auto simp: add_column_def split: if_splits)

lemma ensure_loop_ok:
  assumes "distinct todo" "set todo \<inter> set (table_columns conn) \<subseteq> set existing"
  shows "\<exists>conn'. ensure_loop existing todo conn = Inr conn'
           \<and> table_columns conn' = table_columns conn @ filter (\<lambda>c. c \<notin> set existing) todo"
  using assms
proof (induction todo arbitrary: conn)
  case Nil
  then show ?case by simp
next
  case (Cons c todo)
  show ?case
  proof (cases "c \<in> set existing")
    case True
    with Cons.IH [of conn] Cons.prems show ?thesis by auto
  next
    case False
    with Cons.prems have fresh: "c \<notin> set (table_columns conn)" by auto
    then obtain conn1 where c1: "add_column conn c = Inr conn1"
      and cols1: "table_columns conn1 = table_columns conn @ [c]"
      by (auto simp: add_column_def)
    have "set todo \<inter> set (table_columns conn1) \<subseteq> set existing"
      using Cons.prems cols1 by auto
    with Cons.IH [of conn1] Cons.prems obtain conn' where
      "ensure_loop existing todo conn1 = Inr conn'"
      "table_columns conn' = table_columns conn1 @ filter (\<lambda>c. c \<notin> set existing) todo"
      by auto
    with False c1 cols1 show ?thesis by simp
  qed
qed

lemma count_list_distinct: "distinct xs \<Longrightarrow> x \<in> set xs \<Longrightarrow> count_list xs x = 1"
  by (induction xs) auto

lemma like_umap_columns: "c \<in> set UMAP_COLUMNS \<Longrightarrow> like_umap c"
  by (auto simp: UMAP_COLUMNS_def like_umap_def)

text \<open>
  The per-column check of \<^verbatim>\<open>ensure_umap_columns\<close> does what the claim asks: from any
  schema (column names are unique in a table) the first call succeeds and leaves each of
  the five columns exactly once, and a second call changes nothing and raises nothing.
\<close>

lemma ensure_umap_columns_once:
  assumes "distinct (table_columns conn)"
  shows "\<exists>conn'. ensure_umap_columns conn = Inr conn'
          \<and> distinct (table_columns conn')
          \<and> list_all (\<lambda>c. count_list (table_columns conn') c = 1) UMAP_COLUMNS"
proof -
  let ?ex = "filter like_umap (table_columns conn)"
  have sub: "set UMAP_COLUMNS \<inter> set (table_columns conn) \<subseteq> set ?ex"
    using like_umap_columns by auto
  have d: "distinct UMAP_COLUMNS" by (simp add: UMAP_COLUMNS_def)
  from ensure_loop_ok [OF d sub] obtain conn' where
    r: "ensure_loop ?ex UMAP_COLUMNS conn = Inr conn'"
    and cols: "table_columns conn' = table_columns conn @ filter (\<lambda>c. c \<notin> set ?ex) UMAP_COLUMNS"
    by blast
  have dist: "distinct (table_columns conn')"
    using assms d cols like_umap_columns by auto
  have all: "set UMAP_COLUMNS \<subseteq> set (table_columns conn')"
    using cols by auto
  have "count_list (table_columns conn') c = 1" if "c \<in> set UMAP_COLUMNS" for c
    using that all dist by (simp add: count_list_distinct subsetD)
  then have "list_all (\<lambda>c. count_list (table_columns conn') c = 1) UMAP_COLUMNS"
    by (simp add: list_all_iff)
  with r dist show ?thesis
    by (auto simp: ensure_umap_columns_def UMAP_COLUMNS_def)
qed

lemma ensure_umap_columns_again:
  assumes "set UMAP_COLUMNS \<subseteq> set (table_columns conn)"
  shows "ensure_umap_columns conn = Inr conn"
proof -
  have "list_all (\<lambda>c. c \<in> set (filter like_umap (table_columns conn))) UMAP_COLUMNS"
    using assms like_umap_columns by (auto simp: list_all_iff)
  then show ?thesis
    by (simp add: ensure_umap_columns_def UMAP_COLUMNS_def)
qed

text \<open>
  C5 fails on \<^verbatim>\<open>add_umap_columns\<close>, which tests one column of each group only. On a table
  that has \<^verbatim>\<open>umap_x_2d\<close> and none of the other four, two calls in a row add the 3D
  triple and never \<^verbatim>\<open>umap_y_2d\<close>: the schema ends with four of the five columns.
\<close>

theorem C5_add_umap_columns_misses_y_2d:
  "table_columns (add_umap_columns (add_umap_columns
      \<lparr>table_columns = [''umap_x_2d''], table_rows = ([] :: int row list)\<rparr>))
     = [''umap_x_2d'', ''umap_x_3d'', ''umap_y_3d'', ''umap_z_3d'']
   \<and> count_list (table_columns (add_umap_columns (add_umap_columns
      \<lparr>table_columns = [''umap_x_2d''], table_rows = ([] :: int row list)\<rparr>))) ''umap_y_2d'' = 0"
  by (simp add: add_umap_columns_def add_column_if_not_exists_def add_column_def UMAP_COLUMNS_def)

subsection \<open>The metadata file\<close>

lemma str_nat_digits: "set (str_nat n) \<subseteq> set ''0123456789''"
proof (induction n rule: str_nat.induct)
  case (1 n)
  have d: "''0123456789'' ! k \<in> set ''0123456789''" if "k < 10" for k
    using that by (intro nth_mem) simp
  show ?case
  proof (cases "n < 10")
    case True
    then show ?thesis using d [of n] by (subst str_nat.simps) simp
  next
    case False
    have "n mod 10 < 10" by simp
    from d [OF this] "1.IH" False show ?thesis
      by (subst str_nat.simps) simp
  qed
qed

lemma str_int_plain: "filter (\<lambda>c. c \<in> set [TAB, NL, CR]) (str_int i) = []"
proof -
  have "c \<notin> set [TAB, NL, CR]" if "c \<in> set (str_nat n)" for c n
    using that str_nat_digits [of n] by (auto simp: TAB_def NL_def CR_def)
  then show ?thesis
    by (auto simp: str_int_def filter_empty_conv TAB_def NL_def CR_def)
qed

lemma sanitize_map:
  "sanitize v = map (\<lambda>c. if c = TAB \<or> c = NL \<or> c = CR then CHR '' '' else c) v"
  by (simp add: sanitize_def replace_char_def TAB_def NL_def CR_def)

text \<open>
  C9, as the claim states it, fails: \<^verbatim>\<open>export_tsv\<close> sanitizes \<^verbatim>\<open>value\<close> and writes
  \<^verbatim>\<open>source_table\<close> and \<^verbatim>\<open>source_column\<close> as they are. A record whose \<^verbatim>\<open>source_table\<close>
  holds a newline keeps it and takes two lines of the file.
\<close>

theorem C9_source_table_not_sanitized:
  "metadata_line (example_placed ''v'' [CHR ''a'', NL, CHR ''b''] ''c'')
     = ''v'' @ [TAB] @ [CHR ''a'', NL, CHR ''b''] @ [TAB] @ ''c'' @ [TAB] @ ''3'' @ [NL]
   \<and> count_list (metadata_line (example_placed ''v'' [CHR ''a'', NL, CHR ''b''] ''c'')) NL = 2"
  by (simp add: metadata_line_def example_placed_def sanitize_map str_int_def
      str_nat.simps TAB_def NL_def CR_def)

lemma split_on_notin: "sep \<notin> set xs \<Longrightarrow> split_on sep xs = [xs]"
  by (induction xs) auto

lemma split_on_append:
  "sep \<notin> set xs \<Longrightarrow> split_on sep (xs @ sep # ys) = xs # split_on sep ys"
  by (induction xs) auto

lemma split_on_lines:
  "list_all (\<lambda>d. NL \<notin> set (body d)) data \<Longrightarrow>
   split_on NL (concat (map (\<lambda>d. body d @ [NL]) data)) = map body data @ [[]]"
  by (induction data) (simp_all add: split_on_append)

lemma sanitize_set: "c \<in> set (sanitize v) \<Longrightarrow> c \<noteq> TAB \<and> c \<noteq> NL \<and> c \<noteq> CR"
  by (auto simp: sanitize_map TAB_def NL_def CR_def)

lemma str_int_set: "c \<in> set (str_int i) \<Longrightarrow> c \<noteq> TAB \<and> c \<noteq> NL \<and> c \<noteq> CR"
  using str_int_plain [of i] by (auto simp: filter_empty_conv)

lemma metadata_line_fields:
  assumes "list_all (\<lambda>c. c \<notin> set [TAB, NL, CR]) (d_source_table (item d) @ d_source_column (item d))"
  shows "split_on TAB (butlast (metadata_line d))
           = [sanitize (d_value (item d)), d_source_table (item d), d_source_column (item d),
              str_int (d_usage_count (item d))]"
    and "NL \<notin> set (butlast (metadata_line d))"
    and "CR \<notin> set (metadata_line d)"
proof -
  let ?v = "sanitize (d_value (item d))" and ?t = "d_source_table (item d)"
    and ?c = "d_source_column (item d)" and ?n = "str_int (d_usage_count (item d))"
  have b: "butlast (metadata_line d) = ?v @ TAB # ?t @ TAB # ?c @ TAB # ?n"
    by (simp add: metadata_line_def butlast_append)
  from assms have t: "TAB \<notin> set ?t" "NL \<notin> set ?t" "CR \<notin> set ?t"
    and c: "TAB \<notin> set ?c" "NL \<notin> set ?c" "CR \<notin> set ?c"
    by (auto simp: list_all_iff)
  have v: "TAB \<notin> set ?v" "NL \<notin> set ?v" "CR \<notin> set ?v"
    using sanitize_set [of _ "d_value (item d)"] by blast+
  have n: "TAB \<notin> set ?n" "NL \<notin> set ?n" "CR \<notin> set ?n"
    using str_int_set [of _ "d_usage_count (item d)"] by blast+
  show "split_on TAB (butlast (metadata_line d)) = [?v, ?t, ?c, ?n]"
    unfolding b using v(1) t(1) c(1) n(1) by (simp add: split_on_append split_on_notin)
  show "NL \<notin> set (butlast (metadata_line d))"
    unfolding b using v(2) t(2) c(2) n(2) by (simp add: TAB_def NL_def)
  show "CR \<notin> set (metadata_line d)"
    using v(3) t(3) c(3) n(3) by (simp add: metadata_line_def TAB_def NL_def CR_def)
qed

text \<open>
  C9, amended: a record's line of the metadata file is its \<^verbatim>\<open>value\<close> with every tab,
  newline and carriage return replaced by one space and nothing else changed, then
  \<^verbatim>\<open>source_table\<close> and \<^verbatim>\<open>source_column\<close> as they are stored, then the usage count, separated
  by tabs and ended by a newline. When \<^verbatim>\<open>source_table\<close> and \<^verbatim>\<open>source_column\<close> of every
  record hold no tab, newline or carriage return, the file holds no carriage return and,
  cut at its newlines and then at the tabs, it is the header, then one line of these four
  fields for each record, in the order of the records, and nothing after the last newline.
\<close>

theorem C9_value_sanitized_one_line:
  "metadata_line d
     = map (\<lambda>c. if c = TAB \<or> c = NL \<or> c = CR then CHR '' '' else c) (d_value (item d)) @ [TAB]
         @ d_source_table (item d) @ [TAB] @ d_source_column (item d) @ [TAB]
         @ str_int (d_usage_count (item d)) @ [NL]
   \<and> metadata_tsv (export_tsv fmt6 data) = metadata_header @ concat (map metadata_line data)
   \<and> (list_all (\<lambda>d. list_all (\<lambda>c. c \<notin> set [TAB, NL, CR])
                     (d_source_table (item d) @ d_source_column (item d))) data
        \<longrightarrow> map (split_on TAB) (split_on NL (metadata_tsv (export_tsv fmt6 data)))
              = [''value'', ''source_table'', ''source_column'', ''usage_count'']
                # map (\<lambda>d. [map (\<lambda>c. if c = TAB \<or> c = NL \<or> c = CR then CHR '' '' else c)
                              (d_value (item d)),
                            d_source_table (item d), d_source_column (item d),
                            str_int (d_usage_count (item d))]) data
                @ [[[]]]
            \<and> CR \<notin> set (metadata_tsv (export_tsv fmt6 data)))"
proof (intro conjI impI)
  show "metadata_line d
     = map (\<lambda>c. if c = TAB \<or> c = NL \<or> c = CR then CHR '' '' else c) (d_value (item d)) @ [TAB]
         @ d_source_table (item d) @ [TAB] @ d_source_column (item d) @ [TAB]
         @ str_int (d_usage_count (item d)) @ [NL]"
    by (simp add: metadata_line_def sanitize_map)
  show f: "metadata_tsv (export_tsv fmt6 data) = metadata_header @ concat (map metadata_line data)"
    by (simp add: export_tsv_def)
  assume clean: "list_all (\<lambda>d. list_all (\<lambda>c. c \<notin> set [TAB, NL, CR])
                     (d_source_table (item d) @ d_source_column (item d))) data"
  let ?body = "\<lambda>d :: 'b placed. butlast (metadata_line d)"
  define hb where "hb = ''value'' @ [TAB] @ ''source_table'' @ [TAB] @ ''source_column'' @ [TAB]
                          @ ''usage_count''"
  have line: "metadata_line d = ?body d @ [NL]" for d :: "'b placed"
    by (simp add: metadata_line_def butlast_append)
  have hdr: "metadata_header = hb @ [NL]"
    by (simp add: metadata_header_def hb_def)
  have src: "list_all (\<lambda>c. c \<notin> set [TAB, NL, CR])
                (d_source_table (item d) @ d_source_column (item d))" if "d \<in> set data" for d
    using clean that unfolding list_all_iff by blast
  have "NL \<notin> set (?body d)" if "d \<in> set data" for d
    using src [OF that] by (rule metadata_line_fields(2))
  then have nl: "list_all (\<lambda>d. NL \<notin> set (?body d)) data"
    unfolding list_all_iff by blast
  have "map metadata_line data = map (\<lambda>d. ?body d @ [NL]) data"
    using line by (intro map_cong) simp_all
  then have "concat (map metadata_line data) = concat (map (\<lambda>d. ?body d @ [NL]) data)"
    by (simp only:)
  then have "split_on NL (concat (map metadata_line data)) = map ?body data @ [[]]"
    using split_on_lines [OF nl] by (simp only:)
  moreover have "NL \<notin> set hb" by (simp add: hb_def TAB_def NL_def)
  ultimately have lines: "split_on NL (metadata_tsv (export_tsv fmt6 data)) = hb # map ?body data @ [[]]"
    unfolding f hdr by (simp add: split_on_append)
  have h: "split_on TAB hb = [''value'', ''source_table'', ''source_column'', ''usage_count'']"
    by (simp add: hb_def TAB_def)
  have b: "map (split_on TAB) (map ?body data)
      = map (\<lambda>d. [map (\<lambda>c. if c = TAB \<or> c = NL \<or> c = CR then CHR '' '' else c)
                              (d_value (item d)),
                   d_source_table (item d), d_source_column (item d),
                   str_int (d_usage_count (item d))]) data"
  proof -
    have "split_on TAB (?body d)
        = [map (\<lambda>c. if c = TAB \<or> c = NL \<or> c = CR then CHR '' '' else c) (d_value (item d)),
           d_source_table (item d), d_source_column (item d), str_int (d_usage_count (item d))]"
      if "d \<in> set data" for d
      using metadata_line_fields(1) [OF src [OF that]] by (simp only: sanitize_map)
    then show ?thesis by simp
  qed
  show "map (split_on TAB) (split_on NL (metadata_tsv (export_tsv fmt6 data)))
              = [''value'', ''source_table'', ''source_column'', ''usage_count'']
                # map (\<lambda>d. [map (\<lambda>c. if c = TAB \<or> c = NL \<or> c = CR then CHR '' '' else c)
                              (d_value (item d)),
                            d_source_table (item d), d_source_column (item d),
                            str_int (d_usage_count (item d))]) data
                @ [[[]]]"
    unfolding lines using h b by simp
  have "CR \<notin> set metadata_header"
    by (simp add: metadata_header_def TAB_def NL_def CR_def)
  moreover have "CR \<notin> set (metadata_line d)" if "d \<in> set data" for d
    using src [OF that] by (rule metadata_line_fields(3))
  ultimately show "CR \<notin> set (metadata_tsv (export_tsv fmt6 data))"
    unfolding f by auto
qed

theorem C9_value_sanitized_one_line_witness:
  "metadata_line (example_placed [CHR ''a'', TAB, CHR ''b'', NL, CR] ''t'' ''c'')
     = ''a b  '' @ [TAB] @ ''t'' @ [TAB] @ ''c'' @ [TAB] @ ''3'' @ [NL]
   \<and> map (split_on TAB) (split_on NL (metadata_tsv (export_tsv (\<lambda>c. ''0'')
        [example_placed [CHR ''a'', TAB, CHR ''b'', NL, CR] ''t'' ''c'', example_placed ''v'' ''s t'' []])))
      = [[''value'', ''source_table'', ''source_column'', ''usage_count''],
         [''a b  '', ''t'', ''c'', ''3''],
         [''v'', ''s t'', [], ''3''],
         [[]]]
   \<and> CR \<notin> set (metadata_tsv (export_tsv (\<lambda>c. ''0'')
        [example_placed [CHR ''a'', TAB, CHR ''b'', NL, CR] ''t'' ''c'', example_placed ''v'' ''s t'' []]))"
proof -
  let ?d = "example_placed [CHR ''a'', TAB, CHR ''b'', NL, CR] ''t'' ''c''"
  let ?e = "example_placed ''v'' ''s t'' []"
  note t = C9_value_sanitized_one_line [of ?d "\<lambda>c. ''0''" "[?d, ?e]"]
  have d: "d_source_table (item ?d) = ''t''" "d_source_column (item ?d) = ''c''"
    "d_usage_count (item ?d) = 3"
    by (simp_all add: example_placed_def)
  have e: "d_source_table (item ?e) = ''s t''" "d_source_column (item ?e) = []"
    "d_usage_count (item ?e) = 3"
    by (simp_all add: example_placed_def)
  have n: "str_int 3 = ''3''"
    by (simp add: str_int_def str_nat.simps)
  have v: "map (\<lambda>c. if c = TAB \<or> c = NL \<or> c = CR then CHR '' '' else c) (d_value (item ?d))
             = ''a b  ''"
    "map (\<lambda>c. if c = TAB \<or> c = NL \<or> c = CR then CHR '' '' else c) (d_value (item ?e)) = ''v''"
    by (simp_all add: example_placed_def TAB_def NL_def CR_def)
  have h: "list_all (\<lambda>d. list_all (\<lambda>c. c \<notin> set [TAB, NL, CR])
                     (d_source_table (item d) @ d_source_column (item d))) [?d, ?e]"
    by (simp add: example_placed_def TAB_def NL_def CR_def)
  from t have "metadata_line ?d
     = map (\<lambda>c. if c = TAB \<or> c = NL \<or> c = CR then CHR '' '' else c) (d_value (item ?d)) @ [TAB]
         @ d_source_table (item ?d) @ [TAB] @ d_source_column (item ?d) @ [TAB]
         @ str_int (d_usage_count (item ?d)) @ [NL]"
    by (rule conjunct1)
  then have a: "metadata_line ?d = ''a b  '' @ [TAB] @ ''t'' @ [TAB] @ ''c'' @ [TAB] @ ''3'' @ [NL]"
    by (simp only: d n v)
  from t h have r: "map (split_on TAB) (split_on NL (metadata_tsv (export_tsv (\<lambda>c. ''0'') [?d, ?e])))
              = [''value'', ''source_table'', ''source_column'', ''usage_count'']
                # map (\<lambda>d. [map (\<lambda>c. if c = TAB \<or> c = NL \<or> c = CR then CHR '' '' else c)
                              (d_value (item d)),
                            d_source_table (item d), d_source_column (item d),
                            str_int (d_usage_count (item d))]) [?d, ?e]
                @ [[[]]]"
    and c: "CR \<notin> set (metadata_tsv (export_tsv (\<lambda>c. ''0'') [?d, ?e]))"
    by blast+
  from r have b: "map (split_on TAB) (split_on NL (metadata_tsv (export_tsv (\<lambda>c. ''0'') [?d, ?e])))
      = [[''value'', ''source_table'', ''source_column'', ''usage_count''],
         [''a b  '', ''t'', ''c'', ''3''],
         [''v'', ''s t'', [], ''3''],
         [[]]]"
    by (simp only: d e n v list.map append.simps)
  from a b c show ?thesis by blast
qed

subsection \<open>Decoding the stored vectors\<close>

lemma collect_Inr_map: "collect xs = Inr vs \<Longrightarrow> map Inr vs = xs"
  by (induction xs arbitrary: vs rule: collect.induct) (auto split: sum.splits)

lemma collect_isl: "list_ex isl xs \<Longrightarrow> \<exists>e. collect xs = Inl e"
  by (induction xs rule: collect.induct) (auto split: sum.splits)

lemma collect_ValueError:
  assumes "\<And>x e. x \<in> set xs \<Longrightarrow> x = Inl e \<Longrightarrow> e = ValueError" "list_ex isl xs"
  shows "collect xs = Inl ValueError"
proof -
  from collect_isl [OF assms(2)] obtain e where e: "collect xs = Inl e" by blast
  then have "Inl e \<in> set xs" by (rule collect_Inl)
  with assms(1) have "e = ValueError" by blast
  with e show ?thesis by simp
qed

lemma py_float_error: "py_float num s = Inl e \<Longrightarrow> e = ValueError"
  by (simp add: py_float_def split: if_splits)

lemma parse_pgvector_error: "parse_pgvector num s = Inl e \<Longrightarrow> e = ValueError"
  by (auto simp: parse_pgvector_def Let_def dest!: collect_Inl py_float_error [OF sym])

lemma parse_vector_error: "parse_vector json_loads num s = Inl e \<Longrightarrow> e = ValueError"
  by (auto simp: parse_vector_def split: if_splits option.splits
      dest!: collect_Inl py_float_error [OF sym])

lemma datum_of_error: "datum_of json_loads num r = Inl e \<Longrightarrow> e = ValueError"
  by (auto simp: datum_of_def split: sum.splits dest: parse_vector_error)

lemma datum_of_isl:
  "isl (datum_of json_loads num r) = isl (parse_vector json_loads num (str_cell (embedding_small r)))"
  by (simp add: datum_of_def split: sum.splits)

lemma extract_embeddings_malformed:
  assumes "list_ex (\<lambda>r. embedding_small r \<noteq> None
             \<and> isl (parse_pgvector num (str_cell (embedding_small r)))) (table_rows conn)"
  shows "extract_embeddings num conn 1536 = Inl ValueError"
proof -
  let ?rows = "sort_key row_id (filter (\<lambda>r. embedding_small r \<noteq> None) (table_rows conn))"
  let ?dec = "map (\<lambda>r. parse_pgvector num (str_cell (embedding_small r))) ?rows"
  from assms obtain r where r: "r \<in> set ?rows" "isl (parse_pgvector num (str_cell (embedding_small r)))"
    by (auto simp: list_ex_iff)
  from r(1) have ne: "?rows \<noteq> []" by (metis empty_iff empty_set)
  have "list_ex isl ?dec" using r by (auto simp: list_ex_iff)
  moreover have "e = ValueError" if "x \<in> set ?dec" "x = Inl e" for x e
    using that by (auto dest: parse_pgvector_error [OF sym])
  ultimately have "collect ?dec = Inl ValueError" by (rule collect_ValueError [rotated])
  with ne show ?thesis by (simp add: extract_embeddings_def Let_def)
qed

lemma extract_embeddings_all:
  assumes "extract_embeddings num conn 1536 = Inr (embeddings, metadata)"
  shows "map Inr embeddings = map (\<lambda>r. parse_pgvector num (str_cell (embedding_small r)))
            (sort_key row_id (filter (\<lambda>r. embedding_small r \<noteq> None) (table_rows conn)))
       \<and> metadata = map metadata_of
            (sort_key row_id (filter (\<lambda>r. embedding_small r \<noteq> None) (table_rows conn)))"
proof -
  let ?rows = "sort_key row_id (filter (\<lambda>r. embedding_small r \<noteq> None) (table_rows conn))"
  show ?thesis
  proof (cases "?rows = []")
    case True
    with assms show ?thesis by (simp add: extract_embeddings_def Let_def)
  next
    case False
    with assms obtain es where es: "collect (map (\<lambda>r. parse_pgvector num (str_cell (embedding_small r))) ?rows) = Inr es"
      and arr: "np_array es = Inr embeddings" and m: "metadata = map metadata_of ?rows"
      by (auto simp: extract_embeddings_def Let_def split: sum.splits)
    from arr have "embeddings = es"
      by (auto simp: np_array_def split: list.splits if_splits)
    with collect_Inr_map [OF es] m show ?thesis by simp
  qed
qed

lemma fetch_embeddings_reduce_malformed:
  assumes "list_ex (\<lambda>r. embedding_small r \<noteq> None
             \<and> isl (parse_vector json_loads num (str_cell (embedding_small r)))) (table_rows conn)"
  shows "fetch_embeddings_reduce collate json_loads num conn = Inl ValueError"
proof -
  let ?rows = "sort_key (\<lambda>r. collate (value_hash r))
                 (filter (\<lambda>r. embedding_small r \<noteq> None) (table_rows conn))"
  let ?dec = "map (datum_of json_loads num) ?rows"
  from assms obtain r where r: "r \<in> set ?rows" "isl (datum_of json_loads num r)"
    by (auto simp: list_ex_iff datum_of_isl)
  from r(1) have ne: "?rows \<noteq> []" by (metis empty_iff empty_set)
  have "list_ex isl ?dec" using r by (auto simp: list_ex_iff)
  moreover have "e = ValueError" if "x \<in> set ?dec" "x = Inl e" for x e
    using that by (auto dest: datum_of_error [OF sym])
  ultimately have "collect ?dec = Inl ValueError" by (rule collect_ValueError [rotated])
  with ne show ?thesis by (simp add: fetch_embeddings_reduce_def Let_def)
qed

lemma fetch_embeddings_reduce_all:
  assumes "fetch_embeddings_reduce collate json_loads num conn = Inr data"
  shows "map Inr data = map (datum_of json_loads num)
           (sort_key (\<lambda>r. collate (value_hash r))
              (filter (\<lambda>r. embedding_small r \<noteq> None) (table_rows conn)))"
  using assms
  by (auto simp: fetch_embeddings_reduce_def Let_def split: if_splits dest: collect_Inr_map)

subsection \<open>Adding columns leaves the other columns alone\<close>

lemma same_base_refl [simp]: "same_base r r"
  by (simp add: same_base_def)

lemma same_base_trans: "same_base a b \<Longrightarrow> same_base b c \<Longrightarrow> same_base a c"
  by (simp add: same_base_def)

lemma same_base_null_column: "same_base r (null_column col r)"
  by (simp add: same_base_def null_column_def)

lemma same_base_set_coordinates: "same_base r (set_coordinates p2 p3 r)"
  by (simp add: same_base_def set_coordinates_def)

lemma add_column_if_not_exists_rows:
  "list_all2 same_base (table_rows conn) (table_rows (add_column_if_not_exists conn col))"
  by (auto simp: add_column_if_not_exists_def add_column_def list_all2_map2 same_base_null_column
      intro!: list_all2_refl)

lemma list_all2_same_base_trans:
  "list_all2 same_base xs ys \<Longrightarrow> list_all2 same_base ys zs \<Longrightarrow> list_all2 same_base xs zs"
  by (rule list_all2_trans [of same_base same_base same_base]) (auto intro: same_base_trans)

lemma foldl_add_column_rows:
  "list_all2 same_base (table_rows conn) (table_rows (foldl add_column_if_not_exists conn cols))"
proof (induction cols arbitrary: conn)
  case Nil
  show ?case by (simp add: list_all2_refl)
next
  case (Cons c cols)
  from add_column_if_not_exists_rows [of conn c] Cons.IH [of "add_column_if_not_exists conn c"]
  show ?case by (auto intro: list_all2_same_base_trans)
qed

lemma add_umap_columns_rows:
  "list_all2 same_base (table_rows conn) (table_rows (add_umap_columns conn))"
proof -
  have "\<exists>cols. add_umap_columns conn = foldl add_column_if_not_exists conn cols"
    unfolding add_umap_columns_def Let_def by (metis foldl_Nil)
  then show ?thesis by (auto simp: foldl_add_column_rows)
qed

lemma list_ex_same_base:
  assumes "list_all2 same_base xs ys" "\<And>r r'. same_base r r' \<Longrightarrow> P r \<Longrightarrow> P r'" "list_ex P xs"
  shows "list_ex P ys"
proof -
  from assms(3) obtain i where "i < length xs" "P (xs ! i)"
    by (auto simp: list_ex_iff in_set_conv_nth)
  with assms(1,2) have "i < length ys" "P (ys ! i)"
    by (auto simp: list_all2_conv_all_nth)
  then show ?thesis by (auto simp: list_ex_iff)
qed

subsection \<open>A vector that does not decode\<close>

lemma main_reduce_fetch_fails:
  "fetch_embeddings_reduce collate json_loads num (add_umap_columns conn) = Inl e \<Longrightarrow>
   main_reduce collate json_loads num fit2 fit3 write_fails fmt6 conn
     = \<lparr>r_exit_status = 1, r_final = add_umap_columns conn, r_files = None\<rparr>"
  by (simp add: main_reduce_def Let_def)

lemma parse_example_truncated: "parse_pgvector num ''[0.1,'' = Inl ValueError"
  by (simp add: parse_pgvector_def strip_chars_def py_float_def float_literal_def
      whitespace_def drop_sign_def lower_def floatnumber_def split_first_def
      number_literal_def is_digit_def)

lemma parse_example_good: "parse_pgvector num ''[0.1,0.2]'' = Inr [num ''0.1'', num ''0.2'']"
  by (simp add: parse_pgvector_def strip_chars_def py_float_def float_literal_def
      whitespace_def drop_sign_def lower_def floatnumber_def split_first_def
      number_literal_def is_digit_def)

text \<open>
  C4, as the claim states it, fails: a row whose vector does not decode is not skipped.
  With one good row and one truncated vector (\<^verbatim>\<open>[0.1,\<close>, whose last piece is empty),
  \<^verbatim>\<open>extract_embeddings\<close> raises ValueError and the run ends with status 1 and saves
  nothing, the good row included.
\<close>

theorem C4_truncated_vector_aborts:
  "extract_embeddings (\<lambda>s. 0)
      (example_db [example_row 1 (Some ''[0.1,0.2]'') None None,
                   example_row 2 (Some ''[0.1,'') None None]) 1536 = Inl ValueError
   \<and> main_extract (\<lambda>s. 0)
      (example_db [example_row 1 (Some ''[0.1,0.2]'') None None,
                   example_row 2 (Some ''[0.1,'') None None])
       = \<lparr>e_exit_status = 1, e_saved = None\<rparr>"
  by (simp add: main_extract_def extract_embeddings_def example_db_def example_row_def
      str_cell_def parse_example_truncated parse_example_good)

text \<open>
  C4, amended: extraction decodes the stored vector of every selected row and skips
  none. When the vector of some selected row does not decode, the whole extraction raises
  ValueError, the run ends with exit status 1 and writes neither files nor coordinates;
  when the extraction returns, its output holds the decoded vector of every selected row,
  in the order of the query. This holds for \<^verbatim>\<open>extract_embeddings\<close> (01) and for
  \<^verbatim>\<open>fetch_embeddings\<close> (umap-reduce).
\<close>

theorem C4_extraction_is_all_or_nothing:
  "(list_ex (\<lambda>r. embedding_small r \<noteq> None
        \<and> isl (parse_pgvector num (str_cell (embedding_small r)))) (table_rows conn)
      \<longrightarrow> extract_embeddings num conn 1536 = Inl ValueError
          \<and> main_extract num conn = \<lparr>e_exit_status = 1, e_saved = None\<rparr>)
   \<and> (extract_embeddings num conn 1536 = Inr (embeddings, metadata)
      \<longrightarrow> map Inr embeddings = map (\<lambda>r. parse_pgvector num (str_cell (embedding_small r)))
            (sort_key row_id (filter (\<lambda>r. embedding_small r \<noteq> None) (table_rows conn)))
          \<and> metadata = map metadata_of
            (sort_key row_id (filter (\<lambda>r. embedding_small r \<noteq> None) (table_rows conn))))
   \<and> (list_ex (\<lambda>r. embedding_small r \<noteq> None
        \<and> isl (parse_vector json_loads num (str_cell (embedding_small r)))) (table_rows conn)
      \<longrightarrow> fetch_embeddings_reduce collate json_loads num conn = Inl ValueError
          \<and> main_reduce collate json_loads num fit2 fit3 write_fails fmt6 conn
               = \<lparr>r_exit_status = 1, r_final = add_umap_columns conn, r_files = None\<rparr>)
   \<and> (fetch_embeddings_reduce collate json_loads num conn = Inr data
      \<longrightarrow> map Inr data = map (datum_of json_loads num)
            (sort_key (\<lambda>r. collate (value_hash r))
               (filter (\<lambda>r. embedding_small r \<noteq> None) (table_rows conn))))"
proof (intro conjI impI)
  assume a: "list_ex (\<lambda>r. embedding_small r \<noteq> None
        \<and> isl (parse_pgvector num (str_cell (embedding_small r)))) (table_rows conn)"
  then show e: "extract_embeddings num conn 1536 = Inl ValueError"
    by (rule extract_embeddings_malformed)
  then show "main_extract num conn = \<lparr>e_exit_status = 1, e_saved = None\<rparr>"
    by (simp add: main_extract_def)
next
  assume "extract_embeddings num conn 1536 = Inr (embeddings, metadata)"
  from extract_embeddings_all [OF this]
  show "map Inr embeddings = map (\<lambda>r. parse_pgvector num (str_cell (embedding_small r)))
            (sort_key row_id (filter (\<lambda>r. embedding_small r \<noteq> None) (table_rows conn)))"
    and "metadata = map metadata_of
            (sort_key row_id (filter (\<lambda>r. embedding_small r \<noteq> None) (table_rows conn)))"
    by simp_all
next
  let ?P = "\<lambda>r::'a row. embedding_small r \<noteq> None
        \<and> isl (parse_vector json_loads num (str_cell (embedding_small r)))"
  assume a: "list_ex ?P (table_rows conn)"
  then show "fetch_embeddings_reduce collate json_loads num conn = Inl ValueError"
    by (rule fetch_embeddings_reduce_malformed)
  have "list_ex ?P (table_rows (add_umap_columns conn))"
    using add_umap_columns_rows [of conn] _ a
    by (rule list_ex_same_base) (simp add: same_base_def)
  then have "fetch_embeddings_reduce collate json_loads num (add_umap_columns conn) = Inl ValueError"
    by (rule fetch_embeddings_reduce_malformed)
  then show "main_reduce collate json_loads num fit2 fit3 write_fails fmt6 conn
               = \<lparr>r_exit_status = 1, r_final = add_umap_columns conn, r_files = None\<rparr>"
    by (rule main_reduce_fetch_fails)
next
  assume "fetch_embeddings_reduce collate json_loads num conn = Inr data"
  then show "map Inr data = map (datum_of json_loads num)
            (sort_key (\<lambda>r. collate (value_hash r))
               (filter (\<lambda>r. embedding_small r \<noteq> None) (table_rows conn)))"
    by (rule fetch_embeddings_reduce_all)
qed

lemma parse_vector_example_truncated: "parse_vector json_loads num ''[0.1,'' = Inl ValueError"
  by (simp add: parse_vector_def startswith_def endswith_def py_float_def float_literal_def
      strip_chars_def whitespace_def drop_sign_def lower_def floatnumber_def split_first_def
      number_literal_def is_digit_def)

theorem C4_extraction_is_all_or_nothing_witness:
  "extract_embeddings (\<lambda>s. 0) example_truncated_db 1536 = Inl ValueError
   \<and> main_extract (\<lambda>s. 0) example_truncated_db = \<lparr>e_exit_status = 1, e_saved = None\<rparr>
   \<and> fetch_embeddings_reduce length (\<lambda>s. None) (\<lambda>s. 0) example_truncated_db = Inl ValueError
   \<and> main_reduce length (\<lambda>s. None) (\<lambda>s. 0) (\<lambda>m. None) (\<lambda>m. None) (\<lambda>i. False) (\<lambda>c. '''')
        example_truncated_db
       = \<lparr>r_exit_status = 1, r_final = add_umap_columns example_truncated_db, r_files = None\<rparr>
   \<and> extract_embeddings (\<lambda>s. 0) example_good_db 1536
       = Inr ([[0, 0], [0, 0]], map metadata_of (sort_key row_id (table_rows example_good_db)))
   \<and> map Inr [[0, 0], [0, 0]] = map (\<lambda>r. parse_pgvector (\<lambda>s. 0::int) (str_cell (embedding_small r)))
         (sort_key row_id (filter (\<lambda>r. embedding_small r \<noteq> None) (table_rows example_good_db)))"
proof -
  note bad = C4_extraction_is_all_or_nothing [where num = "\<lambda>s. 0::int" and conn = example_truncated_db
      and collate = length and json_loads = "\<lambda>s. None" and ?fit2.0 = "\<lambda>m. None" and ?fit3.0 = "\<lambda>m. None"
      and write_fails = "\<lambda>i. False" and ?fmt6.0 = "\<lambda>c. ''''"]
  have h1: "list_ex (\<lambda>r. embedding_small r \<noteq> None
        \<and> isl (parse_pgvector (\<lambda>s. 0::int) (str_cell (embedding_small r)))) (table_rows example_truncated_db)"
    by (simp add: example_truncated_db_def example_db_def example_row_def str_cell_def
        parse_example_truncated)
  have h2: "list_ex (\<lambda>r. embedding_small r \<noteq> None
        \<and> isl (parse_vector (\<lambda>s. None) (\<lambda>s. 0::int) (str_cell (embedding_small r)))) (table_rows example_truncated_db)"
    by (simp add: example_truncated_db_def example_db_def example_row_def str_cell_def
        parse_vector_example_truncated)
  have g: "extract_embeddings (\<lambda>s. 0) example_good_db 1536
       = Inr ([[0, 0], [0, 0]], map metadata_of (sort_key row_id (table_rows example_good_db)))"
    by (simp add: extract_embeddings_def example_good_db_def example_db_def example_row_def
        str_cell_def parse_example_good np_array_def)
  note good = C4_extraction_is_all_or_nothing [where num = "\<lambda>s. 0::int" and conn = example_good_db
      and embeddings = "[[0, 0], [0, 0]]"
      and metadata = "map metadata_of (sort_key row_id (table_rows example_good_db))"]
  from bad h1 have "extract_embeddings (\<lambda>s. 0) example_truncated_db 1536 = Inl ValueError
          \<and> main_extract (\<lambda>s. 0) example_truncated_db = \<lparr>e_exit_status = 1, e_saved = None\<rparr>"
    by blast
  moreover from bad h2 have "fetch_embeddings_reduce length (\<lambda>s. None) (\<lambda>s. 0) example_truncated_db = Inl ValueError
   \<and> main_reduce length (\<lambda>s. None) (\<lambda>s. 0) (\<lambda>m. None) (\<lambda>m. None) (\<lambda>i. False) (\<lambda>c. '''')
        example_truncated_db
       = \<lparr>r_exit_status = 1, r_final = add_umap_columns example_truncated_db, r_files = None\<rparr>"
    by blast
  moreover from good g have "map Inr [[0, 0], [0, 0]] = map (\<lambda>r. parse_pgvector (\<lambda>s. 0::int) (str_cell (embedding_small r)))
         (sort_key row_id (filter (\<lambda>r. embedding_small r \<noteq> None) (table_rows example_good_db)))"
    by blast
  ultimately show ?thesis using g by blast
qed

subsection \<open>Nothing to process\<close>

lemma filter_none_left: "list_all (\<lambda>r. \<not> P r) xs \<Longrightarrow> filter P xs = []"
  by (induction xs) auto

lemma main_populate_nothing_pending:
  assumes "has_columns conn [''umap_x_2d'']" "list_all (\<lambda>r. umap_x_2d r \<noteq> None) (table_rows conn)"
  shows "main_populate float32_array fit2 fit3 write_fails conn
           = \<lparr>exit_status = 0, final = conn, said = AllDone, calls = []\<rparr>"
proof -
  have "filter (\<lambda>r. umap_x_2d r = None) (table_rows conn) = []"
    using assms(2) by (intro filter_none_left) simp
  with assms(1) have "fetch_embeddings_populate float32_array conn = Inr ([], [], [])"
    by (simp add: fetch_embeddings_populate_def)
  then show ?thesis by (simp add: main_populate_def)
qed

lemma fetch_embeddings_reduce_no_vectors:
  assumes "list_all (\<lambda>r. embedding_small r = None) (table_rows conn)"
  shows "fetch_embeddings_reduce collate json_loads num conn = Inl SystemExit"
proof -
  have "filter (\<lambda>r. embedding_small r \<noteq> None) (table_rows conn) = []"
    using assms by (intro filter_none_left) simp
  then show ?thesis by (simp add: fetch_embeddings_reduce_def)
qed

lemma list_all_same_base:
  assumes "list_all2 same_base xs ys" "\<And>r r'. same_base r r' \<Longrightarrow> P r \<Longrightarrow> P r'" "list_all P xs"
  shows "list_all P ys"
proof -
  have "P (ys ! i)" if "i < length ys" for i
  proof -
    from that assms(1) have "i < length xs" "same_base (xs ! i) (ys ! i)"
      by (auto simp: list_all2_conv_all_nth)
    moreover from this assms(3) have "P (xs ! i)" by (simp add: list_all_iff)
    ultimately show ?thesis using assms(2) by blast
  qed
  then show ?thesis by (auto simp: list_all_iff in_set_conv_nth)
qed

text \<open>
  C8, as the claim states it, fails for two of the three scripts: on a table without rows
  \<^verbatim>\<open>01_extract_embeddings.py\<close> and \<^verbatim>\<open>umap-reduce.py\<close> end with \<^verbatim>\<open>sys.exit(1)\<close>.
\<close>

theorem C8_empty_table_exits_1:
  "main_extract (\<lambda>s. 0) (example_db []) = \<lparr>e_exit_status = 1, e_saved = None\<rparr>
   \<and> r_exit_status (main_reduce length (\<lambda>s. None) (\<lambda>s. 0) (\<lambda>m. None) (\<lambda>m. None)
        (\<lambda>i. False) (\<lambda>c. '''') (example_db [])) = 1"
  by (simp add: main_extract_def extract_embeddings_def main_reduce_def
      fetch_embeddings_reduce_def add_umap_columns_def example_db_def UMAP_COLUMNS_def)

text \<open>
  C8, amended: when no record lacks its 2D coordinates, \<^verbatim>\<open>populate-umap-coordinates.py\<close>
  ends normally, with exit status 0, the message that all embeddings have coordinates,
  no write and the store untouched. \<^verbatim>\<open>umap-reduce.py\<close> and \<^verbatim>\<open>01_extract_embeddings.py\<close>
  select the records that have a vector; when there is none they end with exit status 1,
  write no file and no coordinate.
\<close>

theorem C8_nothing_to_do:
  "(has_columns conn [''umap_x_2d''] \<and> list_all (\<lambda>r. umap_x_2d r \<noteq> None) (table_rows conn)
      \<longrightarrow> main_populate float32_array pfit2 pfit3 batch_fails conn
            = \<lparr>exit_status = 0, final = conn, said = AllDone, calls = []\<rparr>)
   \<and> (list_all (\<lambda>r. embedding_small r = None) (table_rows conn)
      \<longrightarrow> main_reduce collate json_loads num fit2 fit3 write_fails fmt6 conn
            = \<lparr>r_exit_status = 1, r_final = add_umap_columns conn, r_files = None\<rparr>
          \<and> main_extract num conn = \<lparr>e_exit_status = 1, e_saved = None\<rparr>)"
proof (intro conjI impI)
  assume "has_columns conn [''umap_x_2d''] \<and> list_all (\<lambda>r. umap_x_2d r \<noteq> None) (table_rows conn)"
  then show "main_populate float32_array pfit2 pfit3 batch_fails conn
            = \<lparr>exit_status = 0, final = conn, said = AllDone, calls = []\<rparr>"
    by (simp add: main_populate_nothing_pending)
next
  assume a: "list_all (\<lambda>r. embedding_small r = None) (table_rows conn)"
  have "list_all (\<lambda>r. embedding_small r = None) (table_rows (add_umap_columns conn))"
    using add_umap_columns_rows [of conn] _ a
    by (rule list_all_same_base) (simp add: same_base_def)
  then have "fetch_embeddings_reduce collate json_loads num (add_umap_columns conn) = Inl SystemExit"
    by (rule fetch_embeddings_reduce_no_vectors)
  then show "main_reduce collate json_loads num fit2 fit3 write_fails fmt6 conn
            = \<lparr>r_exit_status = 1, r_final = add_umap_columns conn, r_files = None\<rparr>"
    by (rule main_reduce_fetch_fails)
  have "filter (\<lambda>r. embedding_small r \<noteq> None) (table_rows conn) = []"
    using a by (intro filter_none_left) simp
  then show "main_extract num conn = \<lparr>e_exit_status = 1, e_saved = None\<rparr>"
    by (simp add: main_extract_def extract_embeddings_def)
qed

theorem C8_nothing_to_do_witness:
  "main_populate (\<lambda>m. None) (\<lambda>m. None) (\<lambda>m. None) (\<lambda>i. False) (example_db [example_row 1 None (Some 5) (Some 5)])
     = \<lparr>exit_status = 0, final = example_db [example_row 1 None (Some 5) (Some 5)],
        said = AllDone, calls = []\<rparr>
   \<and> main_reduce length (\<lambda>s. None) (\<lambda>s. 0) (\<lambda>m. None) (\<lambda>m. None) (\<lambda>i. False) (\<lambda>c. '''')
        (example_db [example_row 1 None (Some 5) (Some 5)])
       = \<lparr>r_exit_status = 1, r_final = add_umap_columns (example_db [example_row 1 None (Some 5) (Some 5)]),
          r_files = None\<rparr>
   \<and> main_extract (\<lambda>s. 0) (example_db [example_row 1 None (Some 5) (Some 5)])
       = \<lparr>e_exit_status = 1, e_saved = None\<rparr>"
proof -
  let ?db = "example_db [example_row 1 None (Some 5) (Some 5)]"
  have h1: "has_columns ?db [''umap_x_2d''] \<and> list_all (\<lambda>r. umap_x_2d r \<noteq> None) (table_rows ?db)"
    by (simp add: UMAP_COLUMNS_def) (simp add: example_db_def example_row_def)
  have h2: "list_all (\<lambda>r. embedding_small r = None) (table_rows ?db)"
    by (simp add: example_db_def example_row_def)
  from h1 h2 C8_nothing_to_do [where conn = ?db and ?pfit2.0 = "\<lambda>m. None" and ?pfit3.0 = "\<lambda>m. None"
      and batch_fails = "\<lambda>i. False" and collate = length and json_loads = "\<lambda>s. None"
      and num = "\<lambda>s. 0" and ?fit2.0 = "\<lambda>m. None" and ?fit3.0 = "\<lambda>m. None"
      and write_fails = "\<lambda>i. False" and ?fmt6.0 = "\<lambda>c. ''''"]
  show ?thesis by blast
qed

subsection \<open>The batched writer\<close>

lemma collect_map_Inr: "collect (map (\<lambda>x. Inr (f x)) xs) = Inr (map f xs)"
  by (induction xs) auto

lemma batch_data_of_ok:
  assumes "b \<le> length coords_2d" "b \<le> length coords_3d"
  shows "batch_data_of ids coords_2d coords_3d a b = Inr (tuples ids coords_2d coords_3d a b)"
proof -
  have "map (batch_tuple ids coords_2d coords_3d) [a..<b]
          = map (\<lambda>j. Inr (coords_2d ! j, coords_3d ! j, ids ! j)) [a..<b]"
    using assms by (intro map_cong) (auto simp: batch_tuple_def)
  then show ?thesis
    unfolding batch_data_of_def tuples_def by (simp only: collect_map_Inr)
qed

lemma tuples_append:
  "a \<le> b \<Longrightarrow> b \<le> c \<Longrightarrow>
   tuples ids coords_2d coords_3d a b @ tuples ids coords_2d coords_3d b c
     = tuples ids coords_2d coords_3d a c"
proof -
  assume "a \<le> b" "b \<le> c"
  then obtain d where c: "c = b + d" using le_Suc_ex by blast
  from \<open>a \<le> b\<close> have "[a..<b + d] = [a..<b] @ [b..<b + d]" by (rule upt_add_eq_append)
  then show ?thesis by (simp add: tuples_def c)
qed

lemma tuples_empty [simp]: "b \<le> a \<Longrightarrow> tuples ids coords_2d coords_3d a b = []"
  by (simp add: tuples_def)

lemma length_tuples [simp]: "length (tuples ids coords_2d coords_3d a b) = b - a"
  by (simp add: tuples_def)

lemma has_columns_rows [simp]: "has_columns (conn\<lparr>table_rows := rs\<rparr>) cs = has_columns conn cs"
  by (simp add: has_columns_def)

lemma update_loop_first_failure:
  assumes "length ids \<le> length coords_2d" "length ids \<le> length coords_3d"
    and "has_columns conn UMAP_COLUMNS"
    and "i + k * BATCH_SIZE < length ids"
    and "\<forall>j<k. \<not> write_fails (i + j * BATCH_SIZE)"
    and "write_fails (i + k * BATCH_SIZE)"
  shows "update_loop write_fails ids coords_2d coords_3d i conn tr n =
           \<lparr>store = conn\<lparr>table_rows := foldl update_where_id (table_rows conn)
                       (tuples ids coords_2d coords_3d i (i + k * BATCH_SIZE))\<rparr>,
            trace = tr @ map (\<lambda>j. Committed (i + j * BATCH_SIZE)) [0..<k] @ [Failed (i + k * BATCH_SIZE)],
            outcome = Inl DatabaseError\<rparr>"
  using assms(3-)
proof (induction k arbitrary: i conn tr n)
  case 0
  then have i: "i < length ids" and f: "write_fails i" by simp_all
  have "batch_data_of ids coords_2d coords_3d i (min (i + BATCH_SIZE) (length ids))
          = Inr (tuples ids coords_2d coords_3d i (min (i + BATCH_SIZE) (length ids)))"
    using assms(1,2) by (intro batch_data_of_ok) auto
  with i f show ?case
    by (subst update_loop.simps) (simp add: Let_def)
next
  case (Suc k)
  let ?i' = "i + BATCH_SIZE"
  from Suc.prems have i': "?i' + k * BATCH_SIZE < length ids" by (simp add: ac_simps)
  then have i: "i < length ids" and le: "?i' \<le> length ids" by simp_all
  from Suc.prems have ok: "\<not> write_fails i" by (metis add.right_neutral mult_zero_left zero_less_Suc)
  have nf: "\<forall>j<k. \<not> write_fails (?i' + j * BATCH_SIZE)"
  proof (intro allI impI)
    fix j assume "j < k"
    then have "Suc j < Suc k" by simp
    with Suc.prems(3) have "\<not> write_fails (i + Suc j * BATCH_SIZE)" by blast
    then show "\<not> write_fails (?i' + j * BATCH_SIZE)" by (simp add: ac_simps)
  qed
  have f: "write_fails (?i' + k * BATCH_SIZE)"
    using Suc.prems(4) by (simp add: ac_simps)
  let ?conn' = "conn\<lparr>table_rows := foldl update_where_id (table_rows conn)
                       (tuples ids coords_2d coords_3d i ?i')\<rparr>"
  have cols': "has_columns ?conn' UMAP_COLUMNS" using Suc.prems(1) by simp
  have bd: "batch_data_of ids coords_2d coords_3d i (min ?i' (length ids))
          = Inr (tuples ids coords_2d coords_3d i ?i')"
    using assms(1,2) le by (simp add: min_absorb1 batch_data_of_ok)
  have step: "update_loop write_fails ids coords_2d coords_3d i conn tr n
      = update_loop write_fails ids coords_2d coords_3d ?i' ?conn' (tr @ [Committed i])
          (n + length (tuples ids coords_2d coords_3d i ?i'))"
    using i ok bd Suc.prems(1) by (subst update_loop.simps) (simp add: Let_def)
  have tr: "map (\<lambda>j. Committed (i + j * BATCH_SIZE)) [0..<Suc k]
      = Committed i # map (\<lambda>j. Committed (?i' + j * BATCH_SIZE)) [0..<k]"
    by (simp add: upt_conv_Cons map_Suc_upt [symmetric] ac_simps del: upt_Suc)
  have tp: "tuples ids coords_2d coords_3d i ?i' @ tuples ids coords_2d coords_3d ?i' (?i' + k * BATCH_SIZE)
      = tuples ids coords_2d coords_3d i (i + Suc k * BATCH_SIZE)"
    by (simp add: tuples_append ac_simps)
  have st: "?conn'\<lparr>table_rows := foldl update_where_id (table_rows ?conn')
                (tuples ids coords_2d coords_3d ?i' (?i' + k * BATCH_SIZE))\<rparr>
      = conn\<lparr>table_rows := foldl update_where_id (table_rows conn)
                (tuples ids coords_2d coords_3d i (i + Suc k * BATCH_SIZE))\<rparr>"
    unfolding tp [symmetric] by simp
  have tc: "(tr @ [Committed i]) @ map (\<lambda>j. Committed (?i' + j * BATCH_SIZE)) [0..<k]
               @ [Failed (?i' + k * BATCH_SIZE)]
      = tr @ map (\<lambda>j. Committed (i + j * BATCH_SIZE)) [0..<Suc k] @ [Failed (i + Suc k * BATCH_SIZE)]"
    unfolding tr by (simp add: ac_simps)
  show ?case
    unfolding step Suc.IH [OF cols' i' nf f] st tc ..
qed

lemma update_loop_all_commit:
  "length ids \<le> length coords_2d \<Longrightarrow> length ids \<le> length coords_3d \<Longrightarrow>
   (\<forall>j. \<not> write_fails j) \<Longrightarrow> has_columns conn UMAP_COLUMNS \<Longrightarrow>
   store (update_loop write_fails ids coords_2d coords_3d i conn tr n)
     = conn\<lparr>table_rows := foldl update_where_id (table_rows conn)
                (tuples ids coords_2d coords_3d i (length ids))\<rparr>
   \<and> outcome (update_loop write_fails ids coords_2d coords_3d i conn tr n)
     = Inr (n + (length ids - i))"
proof (induction write_fails ids coords_2d coords_3d i conn tr n rule: update_loop.induct)
  case (1 write_fails ids coords_2d coords_3d i conn tr n)
  show ?case
  proof (cases "i < length ids")
    case False
    then show ?thesis by (subst (1 2) update_loop.simps) simp
  next
    case True
    let ?e = "min (i + BATCH_SIZE) (length ids)"
    let ?bd = "tuples ids coords_2d coords_3d i ?e"
    let ?conn' = "conn\<lparr>table_rows := foldl update_where_id (table_rows conn) ?bd\<rparr>"
    have bd: "batch_data_of ids coords_2d coords_3d i ?e = Inr ?bd"
      using "1.prems"(1,2) by (intro batch_data_of_ok) auto
    have ok: "\<not> (write_fails i \<or> \<not> has_columns conn UMAP_COLUMNS)"
      using "1.prems" by simp
    have step: "update_loop write_fails ids coords_2d coords_3d i conn tr n
        = update_loop write_fails ids coords_2d coords_3d (i + BATCH_SIZE) ?conn'
            (tr @ [Committed i]) (n + length ?bd)"
      using True bd ok by (subst update_loop.simps) (simp add: Let_def)
    have cols': "has_columns ?conn' UMAP_COLUMNS" using "1.prems"(4) by simp
    note IH = "1.IH" [OF True refl bd ok "1.prems"(1,2,3) cols']
    have tp: "?bd @ tuples ids coords_2d coords_3d (i + BATCH_SIZE) (length ids)
        = tuples ids coords_2d coords_3d i (length ids)"
    proof (cases "i + BATCH_SIZE \<le> length ids")
      case True
      then show ?thesis by (simp add: min_absorb1 tuples_append)
    next
      case False
      then show ?thesis by (simp add: min_absorb2)
    qed
    have n: "n + length ?bd + (length ids - (i + BATCH_SIZE)) = n + (length ids - i)"
      using True by (simp add: min_def)
    show ?thesis
      unfolding step using IH n by (simp flip: tp)
  qed
qed

lemma foldl_update_where_id:
  "foldl update_where_id rs us = map (\<lambda>r. foldl (\<lambda>r u. update_one u r) r us) rs"
  by (induction us arbitrary: rs) (simp_all add: update_where_id_def comp_def)

lemma same_base_update_one: "same_base r (update_one u r)"
  by (simp add: update_one_def same_base_set_coordinates)

lemma same_base_fold_update_one: "same_base r (foldl (\<lambda>r u. update_one u r) r us)"
proof (induction us rule: rev_induct)
  case Nil
  show ?case by simp
next
  case (snoc u us)
  then show ?case by (auto intro: same_base_trans same_base_update_one)
qed

lemma coordinates_set_coordinates [simp]: "coordinates (set_coordinates p2 p3 r) = stored p2 p3"
  by (simp add: coordinates_def stored_def set_coordinates_def)

lemma update_one_other: "row_id r \<noteq> snd (snd u) \<Longrightarrow> update_one u r = r"
  by (simp add: update_one_def)

lemma update_one_same:
  "row_id r = snd (snd u) \<Longrightarrow> update_one u r = set_coordinates (fst u) (fst (snd u)) r"
  by (simp add: update_one_def)

lemma fold_update_one_keyed:
  assumes "distinct (map (\<lambda>u. snd (snd u)) us)" "j < length us" "row_id r = snd (snd (us ! j))"
  shows "coordinates (foldl (\<lambda>r u. update_one u r) r us) = stored (fst (us ! j)) (fst (snd (us ! j)))"
  using assms
proof (induction us rule: rev_induct)
  case Nil
  then show ?case by simp
next
  case (snoc v us)
  let ?r' = "foldl (\<lambda>r u. update_one u r) r us"
  have id: "row_id ?r' = row_id r"
    using same_base_fold_update_one [of r us] by (simp add: same_base_def)
  show ?case
  proof (cases "j < length us")
    case True
    then have "us ! j \<in> set us" by simp
    with snoc.prems(1) have "snd (snd (us ! j)) \<noteq> snd (snd v)"
      by (auto simp: image_iff)
    with snoc.prems True have "update_one v ?r' = ?r'"
      by (intro update_one_other) (simp add: id nth_append)
    with snoc.IH snoc.prems True show ?thesis by (simp add: nth_append)
  next
    case False
    with snoc.prems have j: "j = length us" by simp
    with snoc.prems have "row_id ?r' = snd (snd v)" by (simp add: id)
    then have "update_one v ?r' = set_coordinates (fst v) (fst (snd v)) ?r'"
      by (rule update_one_same)
    then show ?thesis by (simp add: j)
  qed
qed

lemma fold_update_one_other:
  "row_id r \<notin> set (map (\<lambda>u. snd (snd u)) us) \<Longrightarrow> foldl (\<lambda>r u. update_one u r) r us = r"
  by (induction us rule: rev_induct) (auto simp: update_one_other)

lemma map_key_tuples:
  "n \<le> length ids \<Longrightarrow> map (\<lambda>u. snd (snd u)) (tuples ids coords_2d coords_3d 0 n) = take n ids"
proof -
  assume "n \<le> length ids"
  then have "map ((!) ids) [0..<n] = take n ids"
    by (intro nth_equalityI) simp_all
  then show ?thesis by (simp add: tuples_def comp_def)
qed

subsection \<open>The row-wise writer\<close>

lemma foldl_update_row:
  assumes "list_all (\<lambda>i. i < length umap_2d \<and> i < length umap_3d) xs"
    and "has_columns (t_store st) UMAP_COLUMNS"
  shows "foldl (update_row write_fails metadata umap_2d umap_3d) st xs =
     \<lparr>t_store = (t_store st)\<lparr>table_rows := foldl update_where_id (table_rows (t_store st))
          (map (\<lambda>i. (umap_2d ! i, umap_3d ! i, m_id (metadata ! i))) (filter (\<lambda>i. \<not> write_fails i) xs))\<rparr>,
      t_trace = t_trace st @ map (\<lambda>i. if write_fails i then Failed i else Committed i) xs,
      updated = updated st + length (filter (\<lambda>i. \<not> write_fails i) xs),
      failed = failed st + length (filter write_fails xs)\<rparr>"
  using assms
proof (induction xs arbitrary: st)
  case Nil
  show ?case by simp
next
  case (Cons x xs)
  let ?st' = "update_row write_fails metadata umap_2d umap_3d st x"
  from Cons.prems have x: "x < length umap_2d \<and> x < length umap_3d"
    and rest: "list_all (\<lambda>i. i < length umap_2d \<and> i < length umap_3d) xs" by simp_all
  show ?case
  proof (cases "write_fails x")
    case True
    then have st': "?st' = st\<lparr>t_trace := t_trace st @ [Failed x], failed := failed st + 1\<rparr>"
      using x by (simp add: update_row_def)
    have "has_columns (t_store ?st') UMAP_COLUMNS" using Cons.prems(2) by (simp add: st')
    from Cons.IH [OF rest this] True show ?thesis by (simp add: st')
  next
    case False
    then have st': "?st' = st\<lparr>t_store := (t_store st)\<lparr>table_rows :=
                   update_where_id (table_rows (t_store st)) (umap_2d ! x, umap_3d ! x, m_id (metadata ! x))\<rparr>,
              t_trace := t_trace st @ [Committed x], updated := updated st + 1\<rparr>"
      using x Cons.prems(2) by (simp add: update_row_def)
    have "has_columns (t_store ?st') UMAP_COLUMNS" using Cons.prems(2) by (simp add: st')
    from Cons.IH [OF rest this] False show ?thesis by (simp add: st')
  qed
qed

lemma update_umap_coordinates_03_result:
  assumes "length metadata \<le> length umap_2d" "length metadata \<le> length umap_3d"
    and "has_columns conn UMAP_COLUMNS"
  shows "update_umap_coordinates_03 write_fails conn metadata umap_2d umap_3d =
     \<lparr>t_store = conn\<lparr>table_rows := foldl update_where_id (table_rows conn)
          (map (\<lambda>i. (umap_2d ! i, umap_3d ! i, m_id (metadata ! i)))
             (filter (\<lambda>i. \<not> write_fails i) [0..<length metadata]))\<rparr>,
      t_trace = map (\<lambda>i. if write_fails i then Failed i else Committed i) [0..<length metadata],
      updated = length (filter (\<lambda>i. \<not> write_fails i) [0..<length metadata]),
      failed = length (filter write_fails [0..<length metadata])\<rparr>"
proof -
  have "list_all (\<lambda>i. i < length umap_2d \<and> i < length umap_3d) [0..<length metadata]"
    using assms(1,2) by (auto simp: list_all_iff)
  from foldl_update_row [OF this, of "\<lparr>t_store = conn, t_trace = [], updated = 0, failed = 0\<rparr>"
      write_fails metadata] assms(3)
  show ?thesis by (simp add: update_umap_coordinates_03_def Let_def)
qed

lemma main_populate_update_fails:
  assumes "fetch_embeddings_populate float32_array conn = Inr (ids, labels, embeddings)" "ids \<noteq> []"
    and "compute_umap_projections fit2 fit3 embeddings = Inr (coords_2d, coords_3d)"
    and "update_umap_coordinates_populate write_fails conn ids coords_2d coords_3d
           = \<lparr>store = conn', trace = tr, outcome = Inl e\<rparr>"
  shows "main_populate float32_array fit2 fit3 write_fails conn
           = \<lparr>exit_status = 1, final = conn', said = handler e, calls = tr\<rparr>"
  using assms by (simp add: main_populate_def Let_def)

lemma example_pending_rows:
  "sort_key row_id (filter (\<lambda>r. umap_x_2d r = None) (table_rows (example_pending_db n)))
     = table_rows (example_pending_db n)"
proof -
  let ?rows = "map (\<lambda>i. example_row (int i) (Some ''[0.1,0.2]'') None None) [0..<n]"
  have "filter (\<lambda>r. umap_x_2d r = None) ?rows = ?rows"
    by (simp add: example_row_def)
  moreover have "map row_id ?rows = map int [0..<n]"
    by (simp add: example_row_def comp_def)
  moreover have "sorted (map int [0..<n])"
    by (simp add: sorted_map sorted_wrt_iff_nth_less)
  ultimately have "sort_key row_id (filter (\<lambda>r. umap_x_2d r = None) ?rows) = ?rows"
    by (metis sort_key_id_if_sorted)
  then show ?thesis by (simp add: example_pending_db_def example_db_def)
qed

lemma example_pending_fetch:
  "0 < n \<Longrightarrow> fetch_embeddings_populate Some (example_pending_db n)
     = Inr (map int [0..<n], map value_text (table_rows (example_pending_db n)),
            map embedding_small (table_rows (example_pending_db n)))"
proof -
  assume "0 < n"
  have "has_columns (example_pending_db n) [''umap_x_2d'']"
    by (simp add: example_pending_db_def UMAP_COLUMNS_def)
  moreover have "map row_id (table_rows (example_pending_db n)) = map int [0..<n]"
    by (simp add: example_pending_db_def example_db_def example_row_def comp_def)
  moreover have "table_rows (example_pending_db n) \<noteq> []"
    using \<open>0 < n\<close> by (simp add: example_pending_db_def example_db_def)
  ultimately show ?thesis
    by (simp add: fetch_embeddings_populate_def example_pending_rows Let_def)
qed

lemma example_compute:
  "compute_umap_projections example_fit2 example_fit3 embeddings
     = Inr (map (\<lambda>v. (0, 0)) embeddings, map (\<lambda>v. (0, 0, 0)) embeddings)"
  by (simp add: compute_umap_projections_def example_fit2_def example_fit3_def)

text \<open>
  C3, as the claim states it, fails on \<^verbatim>\<open>populate-umap-coordinates.py\<close>: its writer has no
  handler around a batch. With 101 pending rows there are two batches, rows 0 to 99 and
  row 100. When the server rejects the first one, the second is never handed to the
  server and the run ends with exit status 1.
\<close>

theorem C3_later_batches_not_attempted:
  "main_populate Some example_fit2 example_fit3 (\<lambda>i. i = 0) (example_pending_db 101)
     = \<lparr>exit_status = 1, final = example_pending_db 101, said = DatabaseErrorMsg, calls = [Failed 0]\<rparr>"
proof -
  let ?db = "example_pending_db 101"
  let ?ids = "map int [0..<101]"
  let ?emb = "map embedding_small (table_rows ?db)"
  let ?c2 = "map (\<lambda>v. (0::int, 0::int)) ?emb"
  let ?c3 = "map (\<lambda>v. (0::int, 0::int, 0::int)) ?emb"
  have len: "length ?emb = 101" by (simp add: example_pending_db_def example_db_def)
  have cols: "has_columns ?db UMAP_COLUMNS"
    by (simp add: example_pending_db_def UMAP_COLUMNS_def)
  have "update_loop (\<lambda>i. i = 0) ?ids ?c2 ?c3 0 ?db [] 0 =
           \<lparr>store = ?db\<lparr>table_rows := foldl update_where_id (table_rows ?db)
                       (tuples ?ids ?c2 ?c3 0 (0 + 0 * BATCH_SIZE))\<rparr>,
            trace = [] @ map (\<lambda>j. Committed (0 + j * BATCH_SIZE)) [0..<0] @ [Failed (0 + 0 * BATCH_SIZE)],
            outcome = Inl DatabaseError\<rparr>"
    using cols by (intro update_loop_first_failure)
      (simp_all add: example_pending_db_def example_db_def)
  then have w: "update_umap_coordinates_populate (\<lambda>i. i = 0) ?db ?ids ?c2 ?c3
      = \<lparr>store = ?db, trace = [Failed 0], outcome = Inl DatabaseError\<rparr>"
    by (simp add: update_umap_coordinates_populate_def)
  have f: "fetch_embeddings_populate Some ?db = Inr (?ids, map value_text (table_rows ?db), ?emb)"
    by (rule example_pending_fetch) simp
  have "main_populate Some example_fit2 example_fit3 (\<lambda>i. i = 0) ?db
      = \<lparr>exit_status = 1, final = ?db, said = handler DatabaseError, calls = [Failed 0]\<rparr>"
    using f _ example_compute w by (rule main_populate_update_fails) simp
  then show ?thesis by (simp add: handler_def)
qed

text \<open>
  C3, amended: on a table with the coordinate columns and with coordinate arrays that
  cover the ids, let batch \<open>k\<close> (rows \<open>k * 100\<close> onwards) be the first batch the server
  rejects. In \<^verbatim>\<open>populate-umap-coordinates.py\<close> the batches before \<open>k\<close> stay committed
  (the store holds exactly the updates of rows \<open>0\<close> to \<open>k * 100 - 1\<close>), batch \<open>k\<close> is
  the last one handed to the server, the function raises, and the run prints the
  database error and ends with exit status 1; no later batch is attempted. In
  \<^verbatim>\<open>03_update_database.py\<close>, where every row is a write of its own, each rejected row is
  reported and counted as failed, every other row is written, all rows are attempted and
  the function returns its counts.
\<close>

theorem C3_failed_batch:
  assumes "length ids \<le> length coords_2d" "length ids \<le> length coords_3d"
    and "has_columns conn UMAP_COLUMNS"
  shows "(k * BATCH_SIZE < length ids \<and> write_fails (k * BATCH_SIZE)
            \<and> (\<forall>j<k. \<not> write_fails (j * BATCH_SIZE))
          \<longrightarrow> update_umap_coordinates_populate write_fails conn ids coords_2d coords_3d
                = \<lparr>store = conn\<lparr>table_rows := foldl update_where_id (table_rows conn)
                              (tuples ids coords_2d coords_3d 0 (k * BATCH_SIZE))\<rparr>,
                   trace = map (\<lambda>j. Committed (j * BATCH_SIZE)) [0..<k] @ [Failed (k * BATCH_SIZE)],
                   outcome = Inl DatabaseError\<rparr>
              \<and> (fetch_embeddings_populate float32_array conn = Inr (ids, labels, embeddings)
                    \<and> compute_umap_projections fit2 fit3 embeddings = Inr (coords_2d, coords_3d)
                  \<longrightarrow> main_populate float32_array fit2 fit3 write_fails conn
                        = \<lparr>exit_status = 1,
                           final = conn\<lparr>table_rows := foldl update_where_id (table_rows conn)
                              (tuples ids coords_2d coords_3d 0 (k * BATCH_SIZE))\<rparr>,
                           said = DatabaseErrorMsg,
                           calls = map (\<lambda>j. Committed (j * BATCH_SIZE)) [0..<k]
                                     @ [Failed (k * BATCH_SIZE)]\<rparr>))
       \<and> (length metadata = length ids
          \<longrightarrow> update_umap_coordinates_03 write_fails conn metadata coords_2d coords_3d
                = \<lparr>t_store = conn\<lparr>table_rows := foldl update_where_id (table_rows conn)
                       (map (\<lambda>i. (coords_2d ! i, coords_3d ! i, m_id (metadata ! i)))
                          (filter (\<lambda>i. \<not> write_fails i) [0..<length metadata]))\<rparr>,
                   t_trace = map (\<lambda>i. if write_fails i then Failed i else Committed i)
                               [0..<length metadata],
                   updated = length (filter (\<lambda>i. \<not> write_fails i) [0..<length metadata]),
                   failed = length (filter write_fails [0..<length metadata])\<rparr>)"
proof (intro conjI impI)
  assume a: "k * BATCH_SIZE < length ids \<and> write_fails (k * BATCH_SIZE)
            \<and> (\<forall>j<k. \<not> write_fails (j * BATCH_SIZE))"
  have "update_loop write_fails ids coords_2d coords_3d 0 conn [] 0 =
           \<lparr>store = conn\<lparr>table_rows := foldl update_where_id (table_rows conn)
                       (tuples ids coords_2d coords_3d 0 (0 + k * BATCH_SIZE))\<rparr>,
            trace = [] @ map (\<lambda>j. Committed (0 + j * BATCH_SIZE)) [0..<k] @ [Failed (0 + k * BATCH_SIZE)],
            outcome = Inl DatabaseError\<rparr>"
    using assms a by (intro update_loop_first_failure) simp_all
  then show w: "update_umap_coordinates_populate write_fails conn ids coords_2d coords_3d
                = \<lparr>store = conn\<lparr>table_rows := foldl update_where_id (table_rows conn)
                              (tuples ids coords_2d coords_3d 0 (k * BATCH_SIZE))\<rparr>,
                   trace = map (\<lambda>j. Committed (j * BATCH_SIZE)) [0..<k] @ [Failed (k * BATCH_SIZE)],
                   outcome = Inl DatabaseError\<rparr>"
    by (simp add: update_umap_coordinates_populate_def)
  assume b: "fetch_embeddings_populate float32_array conn = Inr (ids, labels, embeddings)
                    \<and> compute_umap_projections fit2 fit3 embeddings = Inr (coords_2d, coords_3d)"
  from a have ne: "ids \<noteq> []" by auto
  from b have f: "fetch_embeddings_populate float32_array conn = Inr (ids, labels, embeddings)"
    and c: "compute_umap_projections fit2 fit3 embeddings = Inr (coords_2d, coords_3d)"
    by simp_all
  from main_populate_update_fails [OF f ne c w]
  show "main_populate float32_array fit2 fit3 write_fails conn
                        = \<lparr>exit_status = 1,
                           final = conn\<lparr>table_rows := foldl update_where_id (table_rows conn)
                              (tuples ids coords_2d coords_3d 0 (k * BATCH_SIZE))\<rparr>,
                           said = DatabaseErrorMsg,
                           calls = map (\<lambda>j. Committed (j * BATCH_SIZE)) [0..<k]
                                     @ [Failed (k * BATCH_SIZE)]\<rparr>"
    by (simp add: handler_def)
next
  assume "length metadata = length ids"
  with assms show "update_umap_coordinates_03 write_fails conn metadata coords_2d coords_3d
                = \<lparr>t_store = conn\<lparr>table_rows := foldl update_where_id (table_rows conn)
                       (map (\<lambda>i. (coords_2d ! i, coords_3d ! i, m_id (metadata ! i)))
                          (filter (\<lambda>i. \<not> write_fails i) [0..<length metadata]))\<rparr>,
                   t_trace = map (\<lambda>i. if write_fails i then Failed i else Committed i)
                               [0..<length metadata],
                   updated = length (filter (\<lambda>i. \<not> write_fails i) [0..<length metadata]),
                   failed = length (filter write_fails [0..<length metadata])\<rparr>"
    by (intro update_umap_coordinates_03_result) simp_all
qed

theorem C3_failed_batch_witness:
  "main_populate Some example_fit2 example_fit3 (\<lambda>i. i = 100) (example_pending_db 101)
     = \<lparr>exit_status = 1,
        final = (example_pending_db 101)\<lparr>table_rows :=
          foldl update_where_id (table_rows (example_pending_db 101))
            (tuples (map int [0..<101])
               (map (\<lambda>v. (0, 0)) (map embedding_small (table_rows (example_pending_db 101))))
               (map (\<lambda>v. (0, 0, 0)) (map embedding_small (table_rows (example_pending_db 101))))
               0 100)\<rparr>,
        said = DatabaseErrorMsg,
        calls = [Committed 0, Failed 100]\<rparr>
   \<and> t_trace (update_umap_coordinates_03 (\<lambda>i. i = 100) (example_pending_db 101)
        (map metadata_of (table_rows (example_pending_db 101)))
        (map (\<lambda>v. (0, 0)) (map embedding_small (table_rows (example_pending_db 101))))
        (map (\<lambda>v. (0, 0, 0)) (map embedding_small (table_rows (example_pending_db 101)))))
       = map (\<lambda>i. if i = 100 then Failed i else Committed i) [0..<101]"
proof -
  let ?db = "example_pending_db 101"
  let ?ids = "map int [0..<101]"
  let ?emb = "map embedding_small (table_rows ?db)"
  let ?c2 = "map (\<lambda>v. (0::int, 0::int)) ?emb"
  let ?c3 = "map (\<lambda>v. (0::int, 0::int, 0::int)) ?emb"
  let ?meta = "map metadata_of (table_rows ?db)"
  have n: "length (table_rows ?db) = 101" by (simp add: example_pending_db_def example_db_def)
  have l2: "length ?ids \<le> length ?c2" and l3: "length ?ids \<le> length ?c3" by (simp_all add: n)
  have cols: "has_columns ?db UMAP_COLUMNS"
    by (simp add: example_pending_db_def UMAP_COLUMNS_def)
  note t = C3_failed_batch [OF l2 l3 cols, where k = 1 and write_fails = "\<lambda>i. i = 100"
      and labels = "map value_text (table_rows ?db)" and embeddings = ?emb
      and ?fit2.0 = example_fit2 and ?fit3.0 = example_fit3 and metadata = ?meta]
  have h1: "1 * BATCH_SIZE < length ?ids \<and> 1 * BATCH_SIZE = 100
            \<and> (\<forall>j<1. \<not> j * BATCH_SIZE = 100)"
    by (simp add: BATCH_SIZE_def)
  have h2: "fetch_embeddings_populate Some ?db = Inr (?ids, map value_text (table_rows ?db), ?emb)
            \<and> compute_umap_projections example_fit2 example_fit3 ?emb = Inr (?c2, ?c3)"
    by (simp add: example_pending_fetch example_compute)
  have h3: "length ?meta = length ?ids" by (simp add: n)
  from t h1 h2 have "main_populate Some example_fit2 example_fit3 (\<lambda>i. i = 100) ?db
     = \<lparr>exit_status = 1,
        final = ?db\<lparr>table_rows := foldl update_where_id (table_rows ?db)
            (tuples ?ids ?c2 ?c3 0 (1 * BATCH_SIZE))\<rparr>,
        said = DatabaseErrorMsg,
        calls = map (\<lambda>j. Committed (j * BATCH_SIZE)) [0..<1] @ [Failed (1 * BATCH_SIZE)]\<rparr>"
    by blast
  then have a: "main_populate Some example_fit2 example_fit3 (\<lambda>i. i = 100) ?db
     = \<lparr>exit_status = 1,
        final = ?db\<lparr>table_rows := foldl update_where_id (table_rows ?db) (tuples ?ids ?c2 ?c3 0 100)\<rparr>,
        said = DatabaseErrorMsg,
        calls = [Committed 0, Failed 100]\<rparr>"
    by (simp add: BATCH_SIZE_def)
  from t h3 have "update_umap_coordinates_03 (\<lambda>i. i = 100) ?db ?meta ?c2 ?c3
                = \<lparr>t_store = ?db\<lparr>table_rows := foldl update_where_id (table_rows ?db)
                       (map (\<lambda>i. (?c2 ! i, ?c3 ! i, m_id (?meta ! i)))
                          (filter (\<lambda>i. \<not> i = 100) [0..<length ?meta]))\<rparr>,
                   t_trace = map (\<lambda>i. if i = 100 then Failed i else Committed i)
                               [0..<length ?meta],
                   updated = length (filter (\<lambda>i. \<not> i = 100) [0..<length ?meta]),
                   failed = length (filter (\<lambda>i. i = 100) [0..<length ?meta])\<rparr>"
    by blast
  then have b: "t_trace (update_umap_coordinates_03 (\<lambda>i. i = 100) ?db ?meta ?c2 ?c3)
       = map (\<lambda>i. if i = 100 then Failed i else Committed i) [0..<101]"
    by (simp add: n)
  from a b show ?thesis by (rule conjI)
qed

subsection \<open>Row-to-id alignment\<close>

lemma keyed_write_same_base: "list_all2 same_base rs (foldl update_where_id rs us)"
  by (simp add: foldl_update_where_id list_all2_map2 same_base_fold_update_one list_all2_refl)

lemma keyed_write_alignment:
  assumes "distinct ids" "j < length ids"
    and "r' \<in> set (foldl update_where_id rs (tuples ids coords_2d coords_3d 0 (length ids)))"
    and "row_id r' = ids ! j"
  shows "coordinates r' = stored (coords_2d ! j) (coords_3d ! j)"
proof -
  let ?us = "tuples ids coords_2d coords_3d 0 (length ids)"
  from assms(3) obtain r where r: "r' = foldl (\<lambda>r u. update_one u r) r ?us"
    by (auto simp: foldl_update_where_id)
  have "row_id r' = row_id r"
    using same_base_fold_update_one [of r ?us] by (simp add: r same_base_def)
  with assms(4) have id: "row_id r = ids ! j" by simp
  have d: "distinct (map (\<lambda>u. snd (snd u)) ?us)"
    using assms(1) by (simp add: map_key_tuples)
  have n: "?us ! j = (coords_2d ! j, coords_3d ! j, ids ! j)"
    using assms(2) by (simp add: tuples_def)
  have "coordinates r' = stored (fst (?us ! j)) (fst (snd (?us ! j)))"
    unfolding r using d _ _ by (rule fold_update_one_keyed) (simp_all add: assms(2) id n)
  then show ?thesis by (simp add: n)
qed

lemma tuples_metadata:
  "map (\<lambda>i. (coords_2d ! i, coords_3d ! i, m_id (metadata ! i))) [0..<length metadata]
     = tuples (map m_id metadata) coords_2d coords_3d 0 (length (map m_id metadata))"
  by (simp add: tuples_def)

lemma filter_no_failure: "\<forall>i. \<not> write_fails i \<Longrightarrow> filter (\<lambda>i. \<not> write_fails i) xs = xs"
  by simp

lemma run_umap_alignment:
  assumes "run_umap fit2 fit3 data = Inr placed"
  shows "\<exists>p2 p3. fit2 (map d_embedding data) = Some p2 \<and> fit3 (map d_embedding data) = Some p3
           \<and> length placed = length data
           \<and> (\<forall>i<length data. placed ! i = \<lparr>item = data ! i, d_umap_2d = p2 ! i, d_umap_3d = p3 ! i\<rparr>)"
proof -
  from assms obtain embeddings p2 p3 where
    v: "vstack (map d_embedding data) = Inr embeddings"
    and f: "fit2 embeddings = Some p2" "fit3 embeddings = Some p3"
    and p: "collect (map (place p2 p3) (enumerate 0 data)) = Inr placed"
    by (auto simp: run_umap_def split: sum.splits option.splits)
  from v have e: "embeddings = map d_embedding data"
    by (auto simp: vstack_def split: list.splits if_splits)
  from collect_Inr_map [OF p] have m: "map Inr placed = map (place p2 p3) (enumerate 0 data)" .
  then have len: "length placed = length data"
    by (metis length_map length_enumerate)
  have "placed ! i = \<lparr>item = data ! i, d_umap_2d = p2 ! i, d_umap_3d = p3 ! i\<rparr>" if "i < length data" for i
  proof -
    from that len have "Inr (placed ! i) = map Inr placed ! i" by simp
    also have "\<dots> = place p2 p3 (enumerate 0 data ! i)" using that by (simp add: m)
    also have "\<dots> = place p2 p3 (i, data ! i)" using that by (simp add: nth_enumerate_eq)
    finally show ?thesis by (auto simp: place_def split: if_splits)
  qed
  with f len show ?thesis unfolding e by blast
qed

text \<open>
  C6: when every write is accepted, the ids are distinct and the coordinate arrays cover
  them, the record whose id stands at position \<open>j\<close> of the id list ends with row \<open>j\<close> of
  the 2D array and row \<open>j\<close> of the 3D array, in the batched writer of
  \<^verbatim>\<open>populate-umap-coordinates.py\<close> (whose writes are, in order, row \<open>i\<close> of both arrays
  under the id at position \<open>i\<close>) and in the row-wise writer of
  \<^verbatim>\<open>03_update_database.py\<close>; both leave every other column of every row as it was. In
  \<^verbatim>\<open>run_umap\<close> entry \<open>i\<close> of the result is entry \<open>i\<close> of the input with row \<open>i\<close> of each
  projection of the stacked vectors.
\<close>

theorem C6_row_alignment:
  assumes "distinct ids" "length ids \<le> length coords_2d" "length ids \<le> length coords_3d"
    and "has_columns conn UMAP_COLUMNS" "\<forall>i. \<not> write_fails i" "j < length ids"
  shows "(\<forall>r \<in> set (table_rows (store
              (update_umap_coordinates_populate write_fails conn ids coords_2d coords_3d))).
            row_id r = ids ! j \<longrightarrow> coordinates r = stored (coords_2d ! j) (coords_3d ! j))
       \<and> list_all2 same_base (table_rows conn) (table_rows (store
              (update_umap_coordinates_populate write_fails conn ids coords_2d coords_3d)))
       \<and> table_rows (store
              (update_umap_coordinates_populate write_fails conn ids coords_2d coords_3d))
           = foldl update_where_id (table_rows conn)
               (map (\<lambda>i. (coords_2d ! i, coords_3d ! i, ids ! i)) [0..<length ids])
       \<and> (map m_id metadata = ids \<longrightarrow>
            (\<forall>r \<in> set (table_rows (t_store
                (update_umap_coordinates_03 write_fails conn metadata coords_2d coords_3d))).
              row_id r = ids ! j \<longrightarrow> coordinates r = stored (coords_2d ! j) (coords_3d ! j))
            \<and> list_all2 same_base (table_rows conn) (table_rows (t_store
                (update_umap_coordinates_03 write_fails conn metadata coords_2d coords_3d))))
       \<and> (run_umap fit2 fit3 data = Inr placed \<longrightarrow>
            (\<exists>p2 p3. fit2 (map d_embedding data) = Some p2 \<and> fit3 (map d_embedding data) = Some p3
               \<and> length placed = length data
               \<and> (\<forall>i<length data. placed ! i
                     = \<lparr>item = data ! i, d_umap_2d = p2 ! i, d_umap_3d = p3 ! i\<rparr>)))"
proof -
  let ?final = "foldl update_where_id (table_rows conn) (tuples ids coords_2d coords_3d 0 (length ids))"
  have w: "table_rows (store (update_umap_coordinates_populate write_fails conn ids coords_2d coords_3d))
      = ?final"
    using update_loop_all_commit [OF assms(2,3,5,4), of 0 "[]" 0]
    by (simp add: update_umap_coordinates_populate_def)
  have al: "coordinates r = stored (coords_2d ! j) (coords_3d ! j)"
    if "r \<in> set ?final" "row_id r = ids ! j" for r
    using assms(1,6) that by (rule keyed_write_alignment)
  have sb: "list_all2 same_base (table_rows conn) ?final"
    by (rule keyed_write_same_base)
  have m: "table_rows (t_store (update_umap_coordinates_03 write_fails conn metadata coords_2d coords_3d))
      = ?final" if "map m_id metadata = ids"
  proof -
    from that have len: "length metadata = length ids" by (metis length_map)
    with assms(2,3) have "length metadata \<le> length coords_2d" "length metadata \<le> length coords_3d"
      by simp_all
    from update_umap_coordinates_03_result [OF this assms(4), of write_fails]
    show ?thesis
      by (simp add: filter_no_failure [OF assms(5)] tuples_metadata that)
  qed
  have tp: "?final = foldl update_where_id (table_rows conn)
               (map (\<lambda>i. (coords_2d ! i, coords_3d ! i, ids ! i)) [0..<length ids])"
    by (simp add: tuples_def)
  show ?thesis
    using w al sb tp m run_umap_alignment [of fit2 fit3 data placed] by auto
qed

theorem C6_row_alignment_witness:
  "coordinates (table_rows (store (update_umap_coordinates_populate (\<lambda>i. False) example_two_db
       [3, 5] [(1, 2), (3, 4)] [(1, 2, 3), (4, 5, 6)])) ! 0) = stored (3, 4) (4, 5, 6)
   \<and> coordinates (table_rows (t_store (update_umap_coordinates_03 (\<lambda>i. False) example_two_db
       (map metadata_of [example_row 3 None None None, example_row 5 None None None])
       [(1, 2), (3, 4)] [(1, 2, 3), (4, 5, 6)])) ! 0) = stored (3, 4) (4, 5, 6)
   \<and> (\<exists>p2 p3. example_fit2 (map d_embedding [example_datum ''a'' [1], example_datum ''b'' [2]]) = Some p2
         \<and> example_fit3 (map d_embedding [example_datum ''a'' [1], example_datum ''b'' [2]]) = Some p3
         \<and> [\<lparr>item = example_datum ''a'' [1], d_umap_2d = (0, 0), d_umap_3d = (0, 0, 0)\<rparr>,
             \<lparr>item = example_datum ''b'' [2], d_umap_2d = (0, 0), d_umap_3d = (0, 0, 0)\<rparr>] ! 1
            = \<lparr>item = [example_datum ''a'' [1], example_datum ''b'' [2]] ! 1,
               d_umap_2d = p2 ! 1, d_umap_3d = p3 ! 1\<rparr>)"
proof -
  let ?ids = "[3, 5] :: int list"
  let ?c2 = "[(1, 2), (3, 4)] :: (int \<times> int) list"
  let ?c3 = "[(1, 2, 3), (4, 5, 6)] :: (int \<times> int \<times> int) list"
  let ?meta = "map metadata_of [example_row 3 None None None, example_row 5 None None None]"
  let ?data = "[example_datum ''a'' [1], example_datum ''b'' [2]]"
  let ?placed = "[\<lparr>item = example_datum ''a'' [1], d_umap_2d = (0, 0), d_umap_3d = (0, 0, 0)\<rparr>,
             \<lparr>item = example_datum ''b'' [2], d_umap_2d = (0::int, 0::int), d_umap_3d = (0::int, 0::int, 0::int)\<rparr>]"
  let ?P = "table_rows (store (update_umap_coordinates_populate (\<lambda>i. False) example_two_db ?ids ?c2 ?c3))"
  let ?Q = "table_rows (t_store (update_umap_coordinates_03 (\<lambda>i. False) example_two_db ?meta ?c2 ?c3))"
  have h: "distinct ?ids" "length ?ids \<le> length ?c2" "length ?ids \<le> length ?c3"
    "has_columns example_two_db UMAP_COLUMNS" "\<forall>i. \<not> (\<lambda>i. False) i" "1 < length ?ids"
    by (simp_all add: example_two_db_def UMAP_COLUMNS_def)
  note t = C6_row_alignment [OF h, where metadata = ?meta and ?fit2.0 = example_fit2
      and ?fit3.0 = example_fit3 and data = ?data and placed = ?placed]
  have hm: "map m_id ?meta = ?ids" by (simp add: metadata_of_def example_row_def)
  have hr: "run_umap example_fit2 example_fit3 ?data = Inr ?placed"
    by (simp add: run_umap_def vstack_def example_datum_def
        example_fit2_def example_fit3_def enumerate_eq_zip place_def upt_rec)
  have rows: "table_rows example_two_db = [example_row 5 None None None, example_row 3 None None None]"
    by (simp add: example_two_db_def example_db_def)
  have first: "row_id (rs ! 0) = ?ids ! 1 \<and> rs ! 0 \<in> set rs"
    if "list_all2 same_base (table_rows example_two_db) rs" for rs
  proof -
    from that have "length rs = 2" by (simp add: rows list_all2_lengthD [symmetric])
    moreover from that have "same_base (table_rows example_two_db ! 0) (rs ! 0)"
      by (rule list_all2_nthD) (simp add: rows)
    ultimately show ?thesis by (simp add: rows same_base_def example_row_def)
  qed
  from t have "list_all2 same_base (table_rows example_two_db) ?P" by blast
  from first [OF this] t have a: "coordinates (?P ! 0) = stored (?c2 ! 1) (?c3 ! 1)" by blast
  from t hm have "list_all2 same_base (table_rows example_two_db) ?Q" by blast
  from first [OF this] t hm have b: "coordinates (?Q ! 0) = stored (?c2 ! 1) (?c3 ! 1)" by blast
  from t hr obtain p2 p3 where c: "example_fit2 (map d_embedding ?data) = Some p2"
    "example_fit3 (map d_embedding ?data) = Some p3"
    "\<forall>i<length ?data. ?placed ! i = \<lparr>item = ?data ! i, d_umap_2d = p2 ! i, d_umap_3d = p3 ! i\<rparr>"
    by blast
  have "(1::nat) < length ?data" by simp
  with c(3) have "?placed ! 1 = \<lparr>item = ?data ! 1, d_umap_2d = p2 ! 1, d_umap_3d = p3 ! 1\<rparr>"
    by blast
  with a b c(1,2) show ?thesis by auto
qed

subsection \<open>What a successful run leaves behind\<close>

lemma batch_data_of_Inr:
  assumes "batch_data_of ids coords_2d coords_3d a b = Inr bd"
  shows "bd = tuples ids coords_2d coords_3d a b"
proof -
  from assms have m: "map Inr bd = map (batch_tuple ids coords_2d coords_3d) [a..<b]"
    unfolding batch_data_of_def by (rule collect_Inr_map)
  have "batch_tuple ids coords_2d coords_3d j = Inr (coords_2d ! j, coords_3d ! j, ids ! j)"
    if "j \<in> set [a..<b]" for j
  proof -
    from that have "batch_tuple ids coords_2d coords_3d j \<in> set (map Inr bd)"
      unfolding m by (rule imageI [of j "set [a..<b]", folded set_map])
    then show ?thesis by (auto simp: batch_tuple_def split: if_splits)
  qed
  then have "map (batch_tuple ids coords_2d coords_3d) [a..<b]
      = map Inr (tuples ids coords_2d coords_3d a b)"
    unfolding tuples_def map_map comp_def by (intro map_cong refl)
  with m have "map Inr bd = map Inr (tuples ids coords_2d coords_3d a b)" by simp
  then show ?thesis by (simp add: inj_map_eq_map)
qed

lemma update_loop_Inr:
  "outcome (update_loop write_fails ids coords_2d coords_3d i conn tr n) = Inr m \<Longrightarrow>
   store (update_loop write_fails ids coords_2d coords_3d i conn tr n)
     = conn\<lparr>table_rows := foldl update_where_id (table_rows conn)
                (tuples ids coords_2d coords_3d i (length ids))\<rparr>"
proof (induction write_fails ids coords_2d coords_3d i conn tr n rule: update_loop.induct)
  case (1 write_fails ids coords_2d coords_3d i conn tr n)
  show ?case
  proof (cases "i < length ids")
    case False
    then show ?thesis by (subst update_loop.simps) simp
  next
    case True
    let ?e = "min (i + BATCH_SIZE) (length ids)"
    from "1.prems" True obtain bd where bd: "batch_data_of ids coords_2d coords_3d i ?e = Inr bd"
      by (subst (asm) update_loop.simps) (auto simp: Let_def split: sum.splits)
    from "1.prems" True bd have ok: "\<not> (write_fails i \<or> \<not> has_columns conn UMAP_COLUMNS)"
      by (subst (asm) update_loop.simps) (auto simp: Let_def split: if_splits)
    let ?conn' = "conn\<lparr>table_rows := foldl update_where_id (table_rows conn) bd\<rparr>"
    have step: "update_loop write_fails ids coords_2d coords_3d i conn tr n
        = update_loop write_fails ids coords_2d coords_3d (i + BATCH_SIZE) ?conn'
            (tr @ [Committed i]) (n + length bd)"
      using True bd ok by (subst update_loop.simps) (simp add: Let_def)
    from "1.prems" have "outcome (update_loop write_fails ids coords_2d coords_3d (i + BATCH_SIZE) ?conn'
            (tr @ [Committed i]) (n + length bd)) = Inr m"
      by (simp add: step)
    note IH = "1.IH" [OF True refl bd ok this]
    have b: "bd = tuples ids coords_2d coords_3d i ?e" using bd by (rule batch_data_of_Inr)
    have tp: "bd @ tuples ids coords_2d coords_3d (i + BATCH_SIZE) (length ids)
        = tuples ids coords_2d coords_3d i (length ids)"
    proof (cases "i + BATCH_SIZE \<le> length ids")
      case True
      then show ?thesis by (simp add: b min_absorb1 tuples_append)
    next
      case False
      then show ?thesis by (simp add: b min_absorb2)
    qed
    show ?thesis
      unfolding step IH by (simp flip: tp)
  qed
qed

lemma stored_complete: "coordinates r = stored p2 p3 \<Longrightarrow> has_2d r \<and> has_3d r"
  by (simp add: coordinates_def stored_def has_2d_def has_3d_def)

lemma fold_update_one_some:
  "row_id r \<in> set (map (\<lambda>u. snd (snd u)) us) \<Longrightarrow>
   \<exists>u \<in> set us. coordinates (foldl (\<lambda>r u. update_one u r) r us) = stored (fst u) (fst (snd u))"
proof (induction us rule: rev_induct)
  case Nil
  then show ?case by simp
next
  case (snoc v us)
  let ?r' = "foldl (\<lambda>r u. update_one u r) r us"
  have id: "row_id ?r' = row_id r"
    using same_base_fold_update_one [of r us] by (simp add: same_base_def)
  show ?case
  proof (cases "row_id r = snd (snd v)")
    case True
    then have "update_one v ?r' = set_coordinates (fst v) (fst (snd v)) ?r'"
      by (intro update_one_same) (simp add: id)
    then show ?thesis by simp
  next
    case False
    then have "update_one v ?r' = ?r'" by (intro update_one_other) (simp add: id)
    moreover from False snoc.prems have "row_id r \<in> set (map (\<lambda>u. snd (snd u)) us)" by auto
    ultimately show ?thesis using snoc.IH by auto
  qed
qed

lemma main_populate_success:
  assumes "exit_status (main_populate float32_array fit2 fit3 write_fails conn) = 0"
  shows "has_columns conn [''umap_x_2d'']
       \<and> table_columns (final (main_populate float32_array fit2 fit3 write_fails conn)) = table_columns conn
       \<and> list_all2 (\<lambda>r r'. same_base r r'
              \<and> ((has_2d r' \<and> has_3d r') \<or> (r' = r \<and> umap_x_2d r \<noteq> None)))
           (table_rows conn) (table_rows (final (main_populate float32_array fit2 fit3 write_fails conn)))"
proof -
  let ?pending = "sort_key row_id (filter (\<lambda>r. umap_x_2d r = None) (table_rows conn))"
  from assms have cols: "has_columns conn [''umap_x_2d'']"
    by (auto simp: main_populate_def fetch_embeddings_populate_def split: if_splits)
  show ?thesis
  proof (cases "?pending = []")
    case True
    then have e: "filter (\<lambda>r. umap_x_2d r = None) (table_rows conn) = []"
      by (metis length_0_conv length_sort)
    then have "\<forall>r \<in> set (table_rows conn). umap_x_2d r \<noteq> None"
      by (simp add: filter_empty_conv)
    moreover from cols e have "final (main_populate float32_array fit2 fit3 write_fails conn) = conn"
      by (simp add: main_populate_def fetch_embeddings_populate_none)
    ultimately show ?thesis using cols by (simp add: list_all2_same)
  next
    case False
    let ?ids = "map row_id ?pending"
    from False have ne: "filter (\<lambda>r. umap_x_2d r = None) (table_rows conn) \<noteq> []"
      by auto
    from assms cols ne obtain embeddings where
      a: "float32_array (map embedding_small ?pending) = Some embeddings"
      by (cases "float32_array (map embedding_small ?pending)")
        (auto simp: main_populate_def fetch_embeddings_populate_raises)
    from cols ne a have f: "fetch_embeddings_populate float32_array conn
      = Inr (?ids, map value_text ?pending, embeddings)"
      by (rule fetch_embeddings_populate_ids)
    from assms False obtain c2 c3 where
      c: "compute_umap_projections fit2 fit3 embeddings = Inr (c2, c3)"
      by (auto simp: main_populate_def f split: sum.splits)
    let ?w = "update_umap_coordinates_populate write_fails conn ?ids c2 c3"
    from assms False c obtain m where o: "outcome ?w = Inr m"
      by (auto simp: main_populate_def f Let_def split: sum.splits)
    with assms False c have fin: "final (main_populate float32_array fit2 fit3 write_fails conn) = store ?w"
      by (auto simp: main_populate_def f Let_def split: sum.splits)
    let ?us = "tuples ?ids c2 c3 0 (length ?ids)"
    from o have st: "store ?w = conn\<lparr>table_rows := foldl update_where_id (table_rows conn) ?us\<rparr>"
      unfolding update_umap_coordinates_populate_def by (rule update_loop_Inr)
    have keys: "map (\<lambda>u. snd (snd u)) ?us = ?ids" by (simp add: map_key_tuples)
    let ?F = "\<lambda>r. foldl (\<lambda>r u. update_one u r) r ?us"
    have "same_base r (?F r) \<and> ((has_2d (?F r) \<and> has_3d (?F r)) \<or> (?F r = r \<and> umap_x_2d r \<noteq> None))"
      if r: "r \<in> set (table_rows conn)" for r
    proof (cases "row_id r \<in> set ?ids")
      case True
      then have "row_id r \<in> set (map (\<lambda>u. snd (snd u)) ?us)" unfolding keys .
      from fold_update_one_some [OF this] stored_complete
      have "has_2d (?F r) \<and> has_3d (?F r)" by blast
      then show ?thesis by (simp add: same_base_fold_update_one)
    next
      case False
      then have "row_id r \<notin> set (map (\<lambda>u. snd (snd u)) ?us)" unfolding keys .
      then have same: "?F r = r" by (rule fold_update_one_other)
      from False r have "umap_x_2d r \<noteq> None" by auto
      with same show ?thesis by simp
    qed
    then have "list_all2 (\<lambda>r r'. same_base r r'
              \<and> ((has_2d r' \<and> has_3d r') \<or> (r' = r \<and> umap_x_2d r \<noteq> None)))
           (table_rows conn) (map ?F (table_rows conn))"
      by (simp add: list_all2_map2 list_all2_same)
    then show ?thesis
      using cols by (simp add: fin st foldl_update_where_id)
  qed
qed

lemma same_base_update_hash_one: "same_base r (update_hash_one d r)"
  by (simp add: update_hash_one_def same_base_set_coordinates)

lemma update_hash_one_other:
  "value_hash r \<noteq> d_value_hash (item d) \<Longrightarrow> update_hash_one d r = r"
  by (simp add: update_hash_one_def)

lemma update_hash_one_same:
  "value_hash r = d_value_hash (item d) \<Longrightarrow>
   update_hash_one d r = set_coordinates (d_umap_2d d) (d_umap_3d d) r"
  by (simp add: update_hash_one_def)

lemma same_base_fold_hash: "same_base r (foldl (\<lambda>r d. update_hash_one d r) r ds)"
proof (induction ds rule: rev_induct)
  case Nil
  show ?case by simp
next
  case (snoc d ds)
  then show ?case by (auto intro: same_base_trans same_base_update_hash_one)
qed

lemma foldl_update_where_hash:
  "foldl update_where_hash rs ds = map (\<lambda>r. foldl (\<lambda>r d. update_hash_one d r) r ds) rs"
  by (induction ds arbitrary: rs) (simp_all add: update_where_hash_def comp_def)

lemma fold_hash_other:
  "value_hash r \<notin> set (map (\<lambda>d. d_value_hash (item d)) ds) \<Longrightarrow>
   foldl (\<lambda>r d. update_hash_one d r) r ds = r"
  by (induction ds rule: rev_induct) (auto simp: update_hash_one_other)

lemma fold_hash_some:
  "value_hash r \<in> set (map (\<lambda>d. d_value_hash (item d)) ds) \<Longrightarrow>
   \<exists>d \<in> set ds. coordinates (foldl (\<lambda>r d. update_hash_one d r) r ds)
      = stored (d_umap_2d d) (d_umap_3d d)"
proof (induction ds rule: rev_induct)
  case Nil
  then show ?case by simp
next
  case (snoc v ds)
  let ?r' = "foldl (\<lambda>r d. update_hash_one d r) r ds"
  have h: "value_hash ?r' = value_hash r"
    using same_base_fold_hash [of r ds] by (simp add: same_base_def)
  show ?case
  proof (cases "value_hash r = d_value_hash (item v)")
    case True
    then have "update_hash_one v ?r' = set_coordinates (d_umap_2d v) (d_umap_3d v) ?r'"
      by (intro update_hash_one_same) (simp add: h)
    then show ?thesis by simp
  next
    case False
    then have "update_hash_one v ?r' = ?r'" by (intro update_hash_one_other) (simp add: h)
    moreover from False snoc.prems
    have "value_hash r \<in> set (map (\<lambda>d. d_value_hash (item d)) ds)" by auto
    ultimately show ?thesis using snoc.IH by auto
  qed
qed

lemma fold_hash_coordinates:
  "same_base x y \<Longrightarrow> value_hash x \<in> set (map (\<lambda>d. d_value_hash (item d)) ds) \<Longrightarrow>
   coordinates (foldl (\<lambda>r d. update_hash_one d r) x ds)
     = coordinates (foldl (\<lambda>r d. update_hash_one d r) y ds)"
proof (induction ds rule: rev_induct)
  case Nil
  then show ?case by simp
next
  case (snoc v ds)
  let ?x' = "foldl (\<lambda>r d. update_hash_one d r) x ds"
  let ?y' = "foldl (\<lambda>r d. update_hash_one d r) y ds"
  have hx: "value_hash ?x' = value_hash x"
    using same_base_fold_hash [of x ds] by (simp add: same_base_def)
  have hy: "value_hash ?y' = value_hash x"
    using same_base_fold_hash [of y ds] snoc.prems(1) by (simp add: same_base_def)
  show ?case
  proof (cases "value_hash x = d_value_hash (item v)")
    case True
    then have "update_hash_one v ?x' = set_coordinates (d_umap_2d v) (d_umap_3d v) ?x'"
      and "update_hash_one v ?y' = set_coordinates (d_umap_2d v) (d_umap_3d v) ?y'"
      by (simp_all add: update_hash_one_same hx hy)
    then show ?thesis by simp
  next
    case False
    then have "update_hash_one v ?x' = ?x'" and "update_hash_one v ?y' = ?y'"
      by (simp_all add: update_hash_one_other hx hy)
    moreover from False snoc.prems
    have "value_hash x \<in> set (map (\<lambda>d. d_value_hash (item d)) ds)" by auto
    ultimately show ?thesis using snoc.IH snoc.prems(1) by simp
  qed
qed

lemma row_eqI:
  fixes r r' :: "'c row"
  shows "same_base r r' \<Longrightarrow> coordinates r = coordinates r' \<Longrightarrow> r = r'"
  by (cases r, cases r') (simp add: same_base_def coordinates_def)

lemma same_base_sym: "same_base a b \<Longrightarrow> same_base b a"
  by (simp add: same_base_def)

lemma fold_hash_idem:
  fixes r :: "'c row"
  shows "foldl (\<lambda>r d. update_hash_one d r) (foldl (\<lambda>r d. update_hash_one d r) r ds) ds
     = foldl (\<lambda>r d. update_hash_one d r) r ds"
proof (cases "value_hash r \<in> set (map (\<lambda>d. d_value_hash (item d)) ds)")
  case False
  then show ?thesis by (simp add: fold_hash_other)
next
  case True
  let ?y = "foldl (\<lambda>r d. update_hash_one d r) r ds"
  have sb: "same_base r ?y" by (rule same_base_fold_hash)
  then have "value_hash ?y = value_hash r" by (simp add: same_base_def)
  with True have "value_hash ?y \<in> set (map (\<lambda>d. d_value_hash (item d)) ds)" by simp
  with same_base_sym [OF sb]
  have "coordinates (foldl (\<lambda>r d. update_hash_one d r) ?y ds) = coordinates ?y"
    by (rule fold_hash_coordinates)
  moreover have "same_base (foldl (\<lambda>r d. update_hash_one d r) ?y ds) ?y"
    by (rule same_base_sym) (rule same_base_fold_hash)
  ultimately show ?thesis by (rule row_eqI [rotated])
qed

lemma update_where_hash_idem:
  fixes rs :: "'c row list"
  shows "foldl update_where_hash (foldl update_where_hash rs ds) ds = foldl update_where_hash rs ds"
  by (simp add: foldl_update_where_hash comp_def fold_hash_idem)

lemma strip_same_base:
  fixes r r' :: "'c row"
  shows "same_base r r' \<Longrightarrow> strip_coordinates r = strip_coordinates r'"
  by (cases r, cases r') (simp add: same_base_def strip_coordinates_def)

lemma map_strip_same_base:
  fixes xs ys :: "'c row list"
  shows "list_all2 same_base xs ys \<Longrightarrow> map strip_coordinates xs = map strip_coordinates ys"
  by (induction rule: list_all2_induct) (simp_all add: strip_same_base)

lemma insort_key_map:
  "(\<And>x. f (g x) = k x) \<Longrightarrow> map g (insort_key k x xs) = insort_key f (g x) (map g xs)"
  by (induction xs) simp_all

lemma sort_key_map:
  "(\<And>x. f (g x) = k x) \<Longrightarrow> map g (sort_key k xs) = sort_key f (map g xs)"
proof (induction xs)
  case Nil
  show ?case by simp
next
  case (Cons a xs)
  from Cons.prems have "map g (insort_key k a (sort_key k xs)) = insort_key f (g a) (map g (sort_key k xs))"
    by (rule insort_key_map)
  with Cons show ?case by simp
qed

lemma datum_of_strip: "datum_of json_loads num (strip_coordinates r) = datum_of json_loads num r"
  by (simp add: datum_of_def strip_coordinates_def split: sum.splits)

lemma fetch_embeddings_reduce_strip:
  "fetch_embeddings_reduce collate json_loads num conn
     = (let rows = sort_key (\<lambda>r. collate (value_hash r))
                     (filter (\<lambda>r. embedding_small r \<noteq> None) (map strip_coordinates (table_rows conn)))
        in if rows = [] then Inl SystemExit else collect (map (datum_of json_loads num) rows))"
proof -
  let ?k = "\<lambda>r::'a row. collate (value_hash r)"
  let ?P = "\<lambda>r::'a row. embedding_small r \<noteq> None"
  let ?rows = "sort_key ?k (filter ?P (table_rows conn))"
  have "filter ?P (map strip_coordinates (table_rows conn))
      = map strip_coordinates (filter ?P (table_rows conn))"
    by (simp add: filter_map comp_def strip_coordinates_def)
  moreover have "map strip_coordinates ?rows = sort_key ?k (map strip_coordinates (filter ?P (table_rows conn)))"
    by (rule sort_key_map) (simp add: strip_coordinates_def)
  ultimately have s: "sort_key ?k (filter ?P (map strip_coordinates (table_rows conn)))
      = map strip_coordinates ?rows" by simp
  have h: "map (datum_of json_loads num) (map strip_coordinates ?rows) = map (datum_of json_loads num) ?rows"
    by (simp add: comp_def datum_of_strip)
  show ?thesis
    unfolding fetch_embeddings_reduce_def Let_def s h map_is_Nil_conv ..
qed

lemma fetch_embeddings_reduce_same_base:
  fixes a b :: "'c db"
  assumes "list_all2 same_base (table_rows a) (table_rows b)"
  shows "fetch_embeddings_reduce collate json_loads num a
       = fetch_embeddings_reduce collate json_loads num b"
  unfolding fetch_embeddings_reduce_strip map_strip_same_base [OF assms] ..

lemma datum_hashes:
  "map Inr ds = map (datum_of json_loads num) rows \<Longrightarrow>
   map d_value_hash ds = map value_hash rows"
proof (induction rows arbitrary: ds)
  case Nil
  then show ?case by simp
next
  case (Cons r rows)
  then obtain d ds' where ds: "ds = d # ds'" by (cases ds) auto
  with Cons.prems have "datum_of json_loads num r = Inr d" by simp
  then have "d_value_hash d = value_hash r"
    by (auto simp: datum_of_def split: sum.splits)
  with Cons ds show ?case by simp
qed

lemma fetch_embeddings_reduce_hashes:
  assumes "fetch_embeddings_reduce collate json_loads num conn = Inr fetched"
  shows "set (map d_value_hash fetched)
       = value_hash ` {r \<in> set (table_rows conn). embedding_small r \<noteq> None}"
    and "fetched \<noteq> []"
proof -
  from fetch_embeddings_reduce_all [OF assms]
  have "map d_value_hash fetched = map value_hash (sort_key (\<lambda>r. collate (value_hash r))
              (filter (\<lambda>r. embedding_small r \<noteq> None) (table_rows conn)))"
    by (rule datum_hashes)
  then have "set (map d_value_hash fetched) = set (map value_hash (sort_key (\<lambda>r. collate (value_hash r))
              (filter (\<lambda>r. embedding_small r \<noteq> None) (table_rows conn))))" by simp
  then show "set (map d_value_hash fetched)
       = value_hash ` {r \<in> set (table_rows conn). embedding_small r \<noteq> None}"
    by simp
  show "fetched \<noteq> []"
  proof
    assume "fetched = []"
    with fetch_embeddings_reduce_all [OF assms]
    have "sort_key (\<lambda>r. collate (value_hash r))
              (filter (\<lambda>r. embedding_small r \<noteq> None) (table_rows conn)) = []"
      by simp
    with assms show False by (simp add: fetch_embeddings_reduce_def)
  qed
qed

lemma run_umap_items:
  assumes "run_umap fit2 fit3 fetched = Inr data"
  shows "map item data = fetched"
proof -
  from run_umap_alignment [OF assms] obtain p2 p3 where
    len: "length data = length fetched"
    and n: "\<forall>i<length fetched. data ! i = \<lparr>item = fetched ! i, d_umap_2d = p2 ! i, d_umap_3d = p3 ! i\<rparr>"
    by blast
  show ?thesis
  proof (rule nth_equalityI)
    show "length (map item data) = length fetched" using len by simp
    fix i assume "i < length (map item data)"
    with len have i: "i < length fetched" by simp
    with n have "data ! i = \<lparr>item = fetched ! i, d_umap_2d = p2 ! i, d_umap_3d = p3 ! i\<rparr>" by blast
    then have "item (data ! i) = fetched ! i" by simp
    with i len show "map item data ! i = fetched ! i" by simp
  qed
qed

lemma main_reduce_success:
  assumes "r_exit_status (main_reduce collate json_loads num fit2 fit3 write_fails fmt6 conn) = 0"
  shows "\<exists>fetched data.
           fetch_embeddings_reduce collate json_loads num (add_umap_columns conn) = Inr fetched
         \<and> run_umap fit2 fit3 fetched = Inr data
         \<and> has_columns (add_umap_columns conn) UMAP_COLUMNS
         \<and> \<not> list_ex write_fails [0..<Suc (length data)]
         \<and> main_reduce collate json_loads num fit2 fit3 write_fails fmt6 conn
             = \<lparr>r_exit_status = 0,
                r_final = (add_umap_columns conn)\<lparr>table_rows :=
                   foldl update_where_hash (table_rows (add_umap_columns conn)) data\<rparr>,
                r_files = Some (export_tsv fmt6 data)\<rparr>"
proof -
  let ?conn = "add_umap_columns conn"
  from assms obtain fetched where f: "fetch_embeddings_reduce collate json_loads num ?conn = Inr fetched"
    by (auto simp: main_reduce_def Let_def split: sum.splits)
  with assms obtain data where d: "run_umap fit2 fit3 fetched = Inr data"
    by (auto simp: main_reduce_def Let_def split: sum.splits)
  with assms f obtain conn' where u: "update_database write_fails ?conn data = Inr conn'"
    by (auto simp: main_reduce_def Let_def split: sum.splits)
  from run_umap_items [OF d] fetch_embeddings_reduce_hashes(2) [OF f] have ne: "data \<noteq> []" by auto
  with u have cols: "has_columns ?conn UMAP_COLUMNS" and nf: "\<not> list_ex write_fails [0..<Suc (length data)]"
    and c': "conn' = ?conn\<lparr>table_rows := foldl update_where_hash (table_rows ?conn) data\<rparr>"
    by (auto simp: update_database_def split: if_splits)
  from assms f d u have "main_reduce collate json_loads num fit2 fit3 write_fails fmt6 conn
             = \<lparr>r_exit_status = 0, r_final = conn', r_files = Some (export_tsv fmt6 data)\<rparr>"
    by (auto simp: main_reduce_def Let_def split: sum.splits)
  with f d cols nf c' show ?thesis by blast
qed

lemma main_reduce_complete:
  assumes "r_exit_status (main_reduce collate json_loads num fit2 fit3 write_fails fmt6 conn) = 0"
  shows "list_all (\<lambda>r. embedding_small r \<noteq> None \<longrightarrow> has_2d r \<and> has_3d r)
           (table_rows (r_final (main_reduce collate json_loads num fit2 fit3 write_fails fmt6 conn)))"
proof -
  let ?conn = "add_umap_columns conn"
  from main_reduce_success [OF assms] obtain fetched data where
    f: "fetch_embeddings_reduce collate json_loads num ?conn = Inr fetched"
    and d: "run_umap fit2 fit3 fetched = Inr data"
    and m: "main_reduce collate json_loads num fit2 fit3 write_fails fmt6 conn
             = \<lparr>r_exit_status = 0,
                r_final = ?conn\<lparr>table_rows := foldl update_where_hash (table_rows ?conn) data\<rparr>,
                r_files = Some (export_tsv fmt6 data)\<rparr>"
    by blast
  let ?F = "\<lambda>r. foldl (\<lambda>r d. update_hash_one d r) r data"
  have "map (\<lambda>d. d_value_hash (item d)) data = map d_value_hash (map item data)"
    by (simp add: comp_def)
  then have hashes: "set (map (\<lambda>d. d_value_hash (item d)) data)
      = value_hash ` {r \<in> set (table_rows ?conn). embedding_small r \<noteq> None}"
    unfolding run_umap_items [OF d] using fetch_embeddings_reduce_hashes(1) [OF f]
    by (simp only:)
  have "has_2d (?F r) \<and> has_3d (?F r)"
    if "r \<in> set (table_rows ?conn)" "embedding_small (?F r) \<noteq> None" for r
  proof -
    have "same_base r (?F r)" by (rule same_base_fold_hash)
    with that(2) have "embedding_small r \<noteq> None" by (simp add: same_base_def)
    with that(1) have "value_hash r \<in> set (map (\<lambda>d. d_value_hash (item d)) data)"
      unfolding hashes by blast
    from fold_hash_some [OF this] stored_complete show ?thesis by blast
  qed
  then show ?thesis
    by (simp add: m foldl_update_where_hash list_all_iff)
qed

text \<open>
  C7, as the claim states it, fails on \<^verbatim>\<open>populate-umap-coordinates.py\<close>, which takes a
  present \<^verbatim>\<open>umap_x_2d\<close> as "done". On a store whose only record has a vector and its 2D
  pair but no 3D triple, the run ends successfully (nothing to do) and the record is
  still partial.
\<close>

theorem C7_partial_record_survives_run:
  "main_populate Some example_fit2 example_fit3 (\<lambda>i. False)
      (example_db [example_row 7 (Some ''[0.1,0.2]'') (Some 5) None])
     = \<lparr>exit_status = 0, final = example_db [example_row 7 (Some ''[0.1,0.2]'') (Some 5) None],
        said = AllDone, calls = []\<rparr>
   \<and> embedding_small (example_row 7 (Some ''[0.1,0.2]'') (Some 5) None) \<noteq> None
   \<and> has_2d (example_row 7 (Some ''[0.1,0.2]'') (Some 5) None)
   \<and> \<not> has_3d (example_row 7 (Some ''[0.1,0.2]'') (Some 5) None)"
  by (simp add: main_populate_def fetch_embeddings_populate_def UMAP_COLUMNS_def)
     (simp add: example_db_def example_row_def has_2d_def has_3d_def)

text \<open>
  C7, amended: after a successful run of \<^verbatim>\<open>umap-reduce.py\<close> every record with a vector
  has its 2D pair and its 3D triple. After a successful run of
  \<^verbatim>\<open>populate-umap-coordinates.py\<close> every record whose \<^verbatim>\<open>umap_x_2d\<close> was NULL has both, and
  a record whose \<^verbatim>\<open>umap_x_2d\<close> was present either has both or is exactly as it was; so no
  record ends with one and not the other when, before the run, every record with
  \<^verbatim>\<open>umap_x_2d\<close> present had both (for one: when no record had coordinates, as in the
  452-record scenario).
\<close>

theorem C7_complete_after_run:
  "(exit_status (main_populate float32_array pfit2 pfit3 batch_fails conn) = 0
      \<longrightarrow> list_all2 (\<lambda>r r'. same_base r r'
              \<and> (umap_x_2d r = None \<longrightarrow> has_2d r' \<and> has_3d r')
              \<and> (umap_x_2d r \<noteq> None \<longrightarrow> r' = r \<or> (has_2d r' \<and> has_3d r')))
            (table_rows conn) (table_rows (final (main_populate float32_array pfit2 pfit3 batch_fails conn))))
   \<and> (exit_status (main_populate float32_array pfit2 pfit3 batch_fails conn) = 0
        \<and> list_all (\<lambda>r. umap_x_2d r \<noteq> None \<longrightarrow> has_2d r \<and> has_3d r) (table_rows conn)
      \<longrightarrow> list_all (\<lambda>r. has_2d r \<and> has_3d r)
            (table_rows (final (main_populate float32_array pfit2 pfit3 batch_fails conn))))
   \<and> (r_exit_status (main_reduce collate json_loads num fit2 fit3 write_fails fmt6 conn) = 0
      \<longrightarrow> list_all (\<lambda>r. embedding_small r \<noteq> None \<longrightarrow> has_2d r \<and> has_3d r)
            (table_rows (r_final (main_reduce collate json_loads num fit2 fit3 write_fails fmt6 conn))))"
proof (intro conjI impI)
  assume "exit_status (main_populate float32_array pfit2 pfit3 batch_fails conn) = 0"
  from main_populate_success [OF this]
  have "list_all2 (\<lambda>r r'. same_base r r'
              \<and> ((has_2d r' \<and> has_3d r') \<or> (r' = r \<and> umap_x_2d r \<noteq> None)))
           (table_rows conn) (table_rows (final (main_populate float32_array pfit2 pfit3 batch_fails conn)))"
    by blast
  then show "list_all2 (\<lambda>r r'. same_base r r'
              \<and> (umap_x_2d r = None \<longrightarrow> has_2d r' \<and> has_3d r')
              \<and> (umap_x_2d r \<noteq> None \<longrightarrow> r' = r \<or> (has_2d r' \<and> has_3d r')))
            (table_rows conn) (table_rows (final (main_populate float32_array pfit2 pfit3 batch_fails conn)))"
    by (rule list_all2_mono) auto
next
  assume a: "exit_status (main_populate float32_array pfit2 pfit3 batch_fails conn) = 0
        \<and> list_all (\<lambda>r. umap_x_2d r \<noteq> None \<longrightarrow> has_2d r \<and> has_3d r) (table_rows conn)"
  let ?rows' = "table_rows (final (main_populate float32_array pfit2 pfit3 batch_fails conn))"
  from a main_populate_success [of float32_array pfit2 pfit3 batch_fails conn]
  have l: "list_all2 (\<lambda>r r'. same_base r r'
              \<and> ((has_2d r' \<and> has_3d r') \<or> (r' = r \<and> umap_x_2d r \<noteq> None)))
           (table_rows conn) ?rows'"
    by blast
  have "has_2d (?rows' ! i) \<and> has_3d (?rows' ! i)" if "i < length ?rows'" for i
  proof -
    from l that have i: "i < length (table_rows conn)" by (simp add: list_all2_lengthD)
    with l have "(has_2d (?rows' ! i) \<and> has_3d (?rows' ! i))
        \<or> (?rows' ! i = table_rows conn ! i \<and> umap_x_2d (table_rows conn ! i) \<noteq> None)"
      by (auto dest: list_all2_nthD)
    moreover from a i have "umap_x_2d (table_rows conn ! i) \<noteq> None
        \<longrightarrow> has_2d (table_rows conn ! i) \<and> has_3d (table_rows conn ! i)"
      by (simp add: list_all_length)
    ultimately show ?thesis by auto
  qed
  then show "list_all (\<lambda>r. has_2d r \<and> has_3d r) ?rows'"
    by (simp add: list_all_length)
next
  assume "r_exit_status (main_reduce collate json_loads num fit2 fit3 write_fails fmt6 conn) = 0"
  then show "list_all (\<lambda>r. embedding_small r \<noteq> None \<longrightarrow> has_2d r \<and> has_3d r)
            (table_rows (r_final (main_reduce collate json_loads num fit2 fit3 write_fails fmt6 conn)))"
    by (rule main_reduce_complete)
qed

lemma example_populate_run:
  "exit_status (main_populate Some example_fit2 example_fit3 (\<lambda>i. False) example_one_db) = 0"
proof -
  let ?db = "example_one_db"
  let ?done = "example_db [example_row 1 (Some ''0.1,0.2'') (Some 0) (Some 0)]"
  have cols: "has_columns ?db UMAP_COLUMNS"
    by (simp add: example_one_db_def UMAP_COLUMNS_def)
  have f: "fetch_embeddings_populate Some ?db = Inr ([1], [''label''], [Some ''0.1,0.2''])"
    by (simp add: fetch_embeddings_populate_def example_one_db_def UMAP_COLUMNS_def)
       (simp add: example_db_def example_row_def)
  have c: "compute_umap_projections example_fit2 example_fit3 [Some ''0.1,0.2'']
      = Inr ([(0, 0)], [(0, 0, 0)])"
    by (simp add: example_compute)
  let ?w = "update_umap_coordinates_populate (\<lambda>i. False) ?db [1] [(0, 0)] [(0, 0, 0)]"
  have w: "store ?w = ?db\<lparr>table_rows := foldl update_where_id (table_rows ?db)
                (tuples [1] [(0, 0)] [(0, 0, 0)] 0 (length [1::int]))\<rparr>
      \<and> outcome ?w = Inr (0 + (length [1::int] - 0))"
    unfolding update_umap_coordinates_populate_def
    using cols by (intro update_loop_all_commit) simp_all
  have st: "?db\<lparr>table_rows := foldl update_where_id (table_rows ?db)
                (tuples [1] [(0, 0)] [(0, 0, 0)] 0 (length [1::int]))\<rparr> = ?done"
    by (simp add: tuples_def update_where_id_def update_one_def set_coordinates_def
        example_one_db_def example_db_def example_row_def)
  have v: "\<exists>stats. verify_population ?done = Inr stats"
    by (simp add: verify_population_def percent_def sql_count_def fmt_range_def UMAP_COLUMNS_def
        example_db_def example_row_def has_columns_def Let_def)
  from w st have "store ?w = ?done" "outcome ?w = Inr 1" by simp_all
  with v show ?thesis
    by (auto simp: main_populate_def f c Let_def)
qed

lemma example_reduce_run:
  "r_exit_status (main_reduce (length :: string \<Rightarrow> nat) (\<lambda>s. None) (\<lambda>s. 0) example_fit2 example_fit3
      (\<lambda>i. False) (\<lambda>c. ''0'') example_one_db) = 0"
  by (simp add: main_reduce_def add_umap_columns_def fetch_embeddings_reduce_def datum_of_def
      parse_vector_def startswith_def endswith_def str_cell_def py_float_def float_literal_def
      strip_chars_def whitespace_def drop_sign_def lower_def floatnumber_def split_first_def
      number_literal_def is_digit_def run_umap_def vstack_def example_fit2_def
      example_fit3_def place_def
      enumerate_eq_zip update_database_def verify_update_def example_one_db_def
      example_db_def example_row_def has_columns_def UMAP_COLUMNS_def Let_def)

theorem C7_complete_after_run_witness:
  "list_all (\<lambda>r. has_2d r \<and> has_3d r)
      (table_rows (final (main_populate Some example_fit2 example_fit3 (\<lambda>i. False) example_one_db)))
   \<and> list_all (\<lambda>r. embedding_small r \<noteq> None \<longrightarrow> has_2d r \<and> has_3d r)
       (table_rows (r_final (main_reduce (length :: string \<Rightarrow> nat) (\<lambda>s. None) (\<lambda>s. 0)
          example_fit2 example_fit3 (\<lambda>i. False) (\<lambda>c. ''0'') example_one_db)))"
proof -
  note t = C7_complete_after_run [where conn = example_one_db and ?pfit2.0 = example_fit2
      and ?pfit3.0 = example_fit3 and batch_fails = "\<lambda>i. False" and collate = "length :: string \<Rightarrow> nat"
      and json_loads = "\<lambda>s. None" and num = "\<lambda>s. 0" and ?fit2.0 = example_fit2
      and ?fit3.0 = example_fit3 and write_fails = "\<lambda>i. False" and ?fmt6.0 = "\<lambda>c. ''0''"]
  have pre: "list_all (\<lambda>r. umap_x_2d r \<noteq> None \<longrightarrow> has_2d r \<and> has_3d r) (table_rows example_one_db)"
    by (simp add: example_one_db_def example_db_def example_row_def)
  from t example_populate_run pre
  have a: "list_all (\<lambda>r. has_2d r \<and> has_3d r)
      (table_rows (final (main_populate Some example_fit2 example_fit3 (\<lambda>i. False) example_one_db)))"
    by blast
  from t example_reduce_run
  have b: "list_all (\<lambda>r. embedding_small r \<noteq> None \<longrightarrow> has_2d r \<and> has_3d r)
       (table_rows (r_final (main_reduce (length :: string \<Rightarrow> nat) (\<lambda>s. None) (\<lambda>s. 0)
          example_fit2 example_fit3 (\<lambda>i. False) (\<lambda>c. ''0'') example_one_db)))"
    by blast
  from a b show ?thesis by (rule conjI)
qed

subsection \<open>Running the pipeline again\<close>

lemma add_umap_columns_noop:
  "''umap_x_2d'' \<in> set (table_columns conn) \<Longrightarrow> ''umap_x_3d'' \<in> set (table_columns conn) \<Longrightarrow>
   add_umap_columns conn = conn"
  by (simp add: add_umap_columns_def UMAP_COLUMNS_def)

lemma hash_write_same_base: "list_all2 same_base rs (foldl update_where_hash rs ds)"
  by (simp add: foldl_update_where_hash list_all2_map2 same_base_fold_hash list_all2_refl)

lemma main_populate_again:
  assumes "exit_status (main_populate float32_array fit2 fit3 write_fails conn) = 0"
  shows "main_populate float32_array' fit2' fit3' write_fails'
           (final (main_populate float32_array fit2 fit3 write_fails conn))
       = \<lparr>exit_status = 0, final = final (main_populate float32_array fit2 fit3 write_fails conn),
          said = AllDone, calls = []\<rparr>"
proof -
  let ?conn' = "final (main_populate float32_array fit2 fit3 write_fails conn)"
  from main_populate_success [OF assms] have cols: "has_columns conn [''umap_x_2d'']"
    and same: "table_columns ?conn' = table_columns conn"
    and l: "list_all2 (\<lambda>r r'. same_base r r'
              \<and> ((has_2d r' \<and> has_3d r') \<or> (r' = r \<and> umap_x_2d r \<noteq> None)))
           (table_rows conn) (table_rows ?conn')"
    by blast+
  from cols same have cols': "has_columns ?conn' [''umap_x_2d'']"
    by (simp add: has_columns_def)
  have "umap_x_2d (table_rows ?conn' ! i) \<noteq> None" if "i < length (table_rows ?conn')" for i
  proof -
    from l that have "i < length (table_rows conn)" by (simp add: list_all2_lengthD)
    with l have "(has_2d (table_rows ?conn' ! i) \<and> has_3d (table_rows ?conn' ! i))
        \<or> (table_rows ?conn' ! i = table_rows conn ! i \<and> umap_x_2d (table_rows conn ! i) \<noteq> None)"
      by (auto dest: list_all2_nthD)
    then show ?thesis by (auto simp: has_2d_def)
  qed
  then have "list_all (\<lambda>r. umap_x_2d r \<noteq> None) (table_rows ?conn')"
    by (simp add: list_all_length)
  with cols' show ?thesis by (rule main_populate_nothing_pending)
qed

lemma main_reduce_again:
  fixes conn :: "'c db"
  assumes "r_exit_status (main_reduce collate json_loads num fit2 fit3 write_fails fmt6 conn) = 0"
  shows "main_reduce collate json_loads num fit2 fit3 write_fails fmt6
           (r_final (main_reduce collate json_loads num fit2 fit3 write_fails fmt6 conn))
       = main_reduce collate json_loads num fit2 fit3 write_fails fmt6 conn"
proof -
  let ?conn = "add_umap_columns conn"
  from main_reduce_success [OF assms] obtain fetched data where
    f: "fetch_embeddings_reduce collate json_loads num ?conn = Inr fetched"
    and d: "run_umap fit2 fit3 fetched = Inr data"
    and cols: "has_columns ?conn UMAP_COLUMNS"
    and nf: "\<not> list_ex write_fails [0..<Suc (length data)]"
    and m: "main_reduce collate json_loads num fit2 fit3 write_fails fmt6 conn
             = \<lparr>r_exit_status = 0,
                r_final = ?conn\<lparr>table_rows := foldl update_where_hash (table_rows ?conn) data\<rparr>,
                r_files = Some (export_tsv fmt6 data)\<rparr>"
    by blast
  let ?conn' = "?conn\<lparr>table_rows := foldl update_where_hash (table_rows ?conn) data\<rparr>"
  have cols': "has_columns ?conn' UMAP_COLUMNS" using cols by simp
  then have "''umap_x_2d'' \<in> set (table_columns ?conn')" "''umap_x_3d'' \<in> set (table_columns ?conn')"
    by (simp_all add: has_columns_def UMAP_COLUMNS_def)
  then have a: "add_umap_columns ?conn' = ?conn'" by (rule add_umap_columns_noop)
  have "list_all2 same_base (table_rows ?conn) (table_rows ?conn')"
    by (simp add: hash_write_same_base)
  from fetch_embeddings_reduce_same_base [OF this, of collate json_loads num] f
  have f': "fetch_embeddings_reduce collate json_loads num ?conn' = Inr fetched"
    by simp
  have "?conn'\<lparr>table_rows := foldl update_where_hash (table_rows ?conn') data\<rparr> = ?conn'"
    by (simp add: update_where_hash_idem)
  with cols' nf have u: "update_database write_fails ?conn' data = Inr ?conn'"
    by (simp add: update_database_def)
  from cols' have "has_columns ?conn' [''umap_x_2d'']" by (rule has_columns_sub(1))
  then have v: "\<exists>cnt. verify_update ?conn' = Inr cnt" by (simp add: verify_update_def)
  have "main_reduce collate json_loads num fit2 fit3 write_fails fmt6 ?conn'
      = \<lparr>r_exit_status = 0, r_final = ?conn', r_files = Some (export_tsv fmt6 data)\<rparr>"
    using v unfolding main_reduce_def Let_def a by (auto simp: f' d u)
  then show ?thesis by (simp add: m)
qed

text \<open>
  C1: a second run on the store that a successful first run left behind changes no
  coordinate. \<^verbatim>\<open>populate-umap-coordinates.py\<close> finds nothing to do, writes nothing and
  leaves the store as it is. \<^verbatim>\<open>umap-reduce.py\<close>, with the same projection (the same
  function of the vectors, which is what the fixed seed stands for), ends with the same
  store and writes the same three files, byte for byte.
\<close>

theorem C1_second_run_is_identical:
  fixes conn :: "('c::linorder) db"
  shows "(exit_status (main_populate float32_array pfit2 pfit3 batch_fails conn) = 0
      \<longrightarrow> main_populate float32_array pfit2 pfit3 batch_fails (final (main_populate float32_array pfit2 pfit3 batch_fails conn))
            = \<lparr>exit_status = 0, final = final (main_populate float32_array pfit2 pfit3 batch_fails conn),
               said = AllDone, calls = []\<rparr>)
   \<and> (r_exit_status (main_reduce collate json_loads num fit2 fit3 write_fails fmt6 conn) = 0
      \<longrightarrow> main_reduce collate json_loads num fit2 fit3 write_fails fmt6
            (r_final (main_reduce collate json_loads num fit2 fit3 write_fails fmt6 conn))
          = main_reduce collate json_loads num fit2 fit3 write_fails fmt6 conn)"
  using main_populate_again [of float32_array pfit2 pfit3 batch_fails conn float32_array pfit2 pfit3 batch_fails]
    main_reduce_again [of collate json_loads num fit2 fit3 write_fails fmt6 conn]
  by blast

theorem C1_second_run_is_identical_witness:
  "main_populate Some example_fit2 example_fit3 (\<lambda>i. False)
      (final (main_populate Some example_fit2 example_fit3 (\<lambda>i. False) example_one_db))
     = \<lparr>exit_status = 0,
        final = final (main_populate Some example_fit2 example_fit3 (\<lambda>i. False) example_one_db),
        said = AllDone, calls = []\<rparr>
   \<and> main_reduce (length :: string \<Rightarrow> nat) (\<lambda>s. None) (\<lambda>s. 0) example_fit2 example_fit3
        (\<lambda>i. False) (\<lambda>c. ''0'')
        (r_final (main_reduce (length :: string \<Rightarrow> nat) (\<lambda>s. None) (\<lambda>s. 0) example_fit2
           example_fit3 (\<lambda>i. False) (\<lambda>c. ''0'') example_one_db))
       = main_reduce (length :: string \<Rightarrow> nat) (\<lambda>s. None) (\<lambda>s. 0) example_fit2 example_fit3
           (\<lambda>i. False) (\<lambda>c. ''0'') example_one_db"
  using C1_second_run_is_identical [where conn = example_one_db and ?pfit2.0 = example_fit2
      and ?pfit3.0 = example_fit3 and batch_fails = "\<lambda>i. False" and collate = "length :: string \<Rightarrow> nat"
      and json_loads = "\<lambda>s. None" and num = "\<lambda>s. 0" and ?fit2.0 = example_fit2
      and ?fit3.0 = example_fit3 and write_fails = "\<lambda>i. False" and ?fmt6.0 = "\<lambda>c. ''0''"]
    example_populate_run example_reduce_run
  by blast

end
